theory Spec2Isabelle
  imports Main "HOL-Library.Word" "HOL-Library.Char_ord" "HOL-Library.List_Lexorder"
begin

section \<open>The rule model (internal/config/config.go)\<close>

text \<open>
  Go strings are byte sequences, modelled as \<open>string\<close> (a list of 8-bit characters).
  Go's \<open>int\<close> is taken at its 64-bit width (the image is built for linux on a 64-bit
  platform) and \<open>time.Duration\<close> is an \<open>int64\<close> count of nanoseconds: both are
  \<open>64 word\<close>, read as signed numbers with \<open>sint\<close>, so that arithmetic wraps
  around as the machine's does.
\<close>

type_synonym int64 = "64 word"
type_synonym Duration = "64 word"

text \<open>
  \<open>ResponseSpec.Body\<close> is an \<open>interface{}\<close>: \<open>nil\<close>, a string, or any other
  value (what the YAML decoder produced: a map, a list, a number, a boolean). The type
  \<open>'v\<close> stands for the values that are neither \<open>nil\<close> nor a string.
\<close>

datatype 'v body_value = NilBody | StringBody string | OtherBody 'v

text \<open>
  A Go \<open>map[string]string\<close> is modelled as the list of its entries; the loops over
  such a map visit them in the list's order (Go leaves the order open). Fields keep
  their names, but for \<open>ResponseDelay.Min\<close> and \<open>Max\<close>, here \<open>DelayMin\<close> and
  \<open>DelayMax\<close>, and \<open>ResponseSpec.Body\<close> and \<open>Headers\<close>, here \<open>RespBody\<close> and
  \<open>RespHeaders\<close>, which would clash with other names.
\<close>

record ServerConfig =
  Port :: "64 word"

record ResponseDelay =
  DelayMin :: int64
  DelayMax :: int64

record 'v ResponseSpec =
  RespBody :: "'v body_value"
  StatusCode :: int64
  RespHeaders :: "(string \<times> string) list"


record 'v RequestRule =
  Path :: string
  Headers :: "(string \<times> string) list"
  QueryParams :: "(string \<times> string) list"
  Method :: string
  Response :: "'v ResponseSpec"
  Body :: string
  ResponseDelay :: "ResponseDelay option"

record 'v Config =
  Server :: ServerConfig
  Requests :: "'v RequestRule list"

subsection \<open>The standard library's functions\<close>

text \<open>
  The code calls \<open>strings.ToUpper\<close>, \<open>regexp.Compile\<close>,
  \<open>Regexp.MatchString\<close> / \<open>Regexp.Match\<close> and \<open>json.Marshal\<close>. They are
  parameters of the model: a record of functions, \<open>None\<close> standing for a returned
  error. \<open>'r\<close> is the type of compiled expressions. Everything proved for an arbitrary
  such record holds for the library's own functions, whatever they do to text outside
  ASCII; the sections \<open>A regular-expression engine\<close> and \<open>A JSON encoder\<close> and
  the function \<open>ToUpperASCII\<close> give an executable instance for the concrete examples.
\<close>

record ('r, 'v) stdlib =
  strings_ToUpper :: "string \<Rightarrow> string"
  regexp_Compile :: "string \<Rightarrow> 'r option"
  MatchString :: "'r \<Rightarrow> string \<Rightarrow> bool"
  json_Marshal :: "'v \<Rightarrow> string option"

subsection \<open>ASCII letters\<close>

text \<open>
  The classes of bytes that \<open>textproto.CanonicalMIMEHeaderKey\<close> works with, and what
  \<open>strings.ToUpper\<close> does to ASCII text: the letters \<open>a\<close> to \<open>z\<close> move down by
  32, every other byte stays. \<open>ToUpperASCII\<close> is applied to ASCII text only (the
  library's function maps the letters of Unicode as well, and rewrites invalid UTF-8).
\<close>

definition isLowerByte :: "char \<Rightarrow> bool" where
  "isLowerByte c \<longleftrightarrow> CHR ''a'' \<le> c \<and> c \<le> CHR ''z''"

definition isUpperByte :: "char \<Rightarrow> bool" where
  "isUpperByte c \<longleftrightarrow> CHR ''A'' \<le> c \<and> c \<le> CHR ''Z''"

definition isDigitByte :: "char \<Rightarrow> bool" where
  "isDigitByte c \<longleftrightarrow> CHR ''0'' \<le> c \<and> c \<le> CHR ''9''"

definition toUpperByte :: "char \<Rightarrow> char" where
  "toUpperByte c = (if isLowerByte c then char_of (of_char c - (32::nat)) else c)"

definition toLowerByte :: "char \<Rightarrow> char" where
  "toLowerByte c = (if isUpperByte c then char_of (of_char c + (32::nat)) else c)"

definition ToUpperASCII :: "string \<Rightarrow> string" where
  "ToUpperASCII s = map toUpperByte s"

subsection \<open>setDefaults and validate\<close>

definition setDefaults_rule :: "('r, 'x) stdlib \<Rightarrow> 'v RequestRule \<Rightarrow> 'v RequestRule" where
  "setDefaults_rule L rule =
     (let rule1 = (if Method rule = [] then rule\<lparr>Method := ''GET''\<rparr> else rule);
          rule2 = rule1\<lparr>Method := strings_ToUpper L (Method rule1)\<rparr>
      in if StatusCode (Response rule2) = 0
         then rule2\<lparr>Response := (Response rule2)\<lparr>StatusCode := 200\<rparr>\<rparr>
         else rule2)"

definition setDefaults :: "('r, 'x) stdlib \<Rightarrow> 'v Config \<Rightarrow> 'v Config" where
  "setDefaults L c =
     (let c1 = (if Port (Server c) = 0 then c\<lparr>Server := (Server c)\<lparr>Port := 8080\<rparr>\<rparr> else c)
      in c1\<lparr>Requests := map (setDefaults_rule L) (Requests c1)\<rparr>)"

definition MaxResponseDelayMs :: int64 where
  "MaxResponseDelayMs = 10000"

datatype config_error =
    PortRequired
  | PathRequired nat
  | MethodRequired nat
  | InvalidStatusCode nat int64
  | DelayMinNegative nat
  | DelayMaxNegative nat
  | DelayMinExceedsMax nat int64 int64
  | DelayMaxTooLarge nat int64 int64

definition validate_delay :: "nat \<Rightarrow> ResponseDelay \<Rightarrow> config_error option" where
  "validate_delay i delay =
     (if sint (DelayMin delay) < 0 then Some (DelayMinNegative i)
      else if sint (DelayMax delay) < 0 then Some (DelayMaxNegative i)
      else if sint (DelayMin delay) > sint (DelayMax delay)
        then Some (DelayMinExceedsMax i (DelayMin delay) (DelayMax delay))
      else if sint (DelayMax delay) > sint MaxResponseDelayMs
        then Some (DelayMaxTooLarge i (DelayMax delay) MaxResponseDelayMs)
      else None)"

definition validate_rule :: "nat \<Rightarrow> 'v RequestRule \<Rightarrow> config_error option" where
  "validate_rule i rule =
     (if Path rule = [] then Some (PathRequired i)
      else if Method rule = [] then Some (MethodRequired i)
      else if sint (StatusCode (Response rule)) < 100 \<or> sint (StatusCode (Response rule)) > 599
        then Some (InvalidStatusCode i (StatusCode (Response rule)))
      else case ResponseDelay rule of
             None \<Rightarrow> None
           | Some delay \<Rightarrow> validate_delay i delay)"

fun validate_rules :: "nat \<Rightarrow> 'v RequestRule list \<Rightarrow> config_error option" where
  "validate_rules i [] = None"
| "validate_rules i (rule # rest) =
     (case validate_rule i rule of
        Some e \<Rightarrow> Some e
      | None \<Rightarrow> validate_rules (Suc i) rest)"

definition validate :: "'v Config \<Rightarrow> config_error option" where
  "validate c =
     (if Port (Server c) = 0 then Some PortRequired
      else validate_rules 0 (Requests c))"

section \<open>The standard library at the handler's boundary\<close>

subsection \<open>net/http: header collection, query values, request body\<close>

text \<open>
  \<open>http.Header\<close> and \<open>url.Values\<close> are \<open>map[string][]string\<close>.
  \<open>Header.Get\<close> canonicalises the name (\<open>textproto.CanonicalMIMEHeaderKey\<close>) and
  returns the first value stored under it, or the empty string; \<open>Values.Get\<close> does the
  same without canonicalising.
\<close>

type_synonym Header = "string \<rightharpoonup> string list"
type_synonym Values = "string \<rightharpoonup> string list"

definition validHeaderFieldByte :: "char \<Rightarrow> bool" where
  "validHeaderFieldByte c \<longleftrightarrow>
     isLowerByte c \<or> isUpperByte c \<or> isDigitByte c \<or>
     c \<in> set (''!#$%&*+-.^_|~'' @ [CHR 0x27, CHR 0x60])"

fun canonicalise :: "bool \<Rightarrow> string \<Rightarrow> string" where
  "canonicalise upper [] = []"
| "canonicalise upper (c # cs) =
     (let c' = (if upper \<and> isLowerByte c then toUpperByte c
                else if \<not> upper \<and> isUpperByte c then toLowerByte c
                else c)
      in c' # canonicalise (c' = CHR ''-'') cs)"

definition CanonicalMIMEHeaderKey :: "string \<Rightarrow> string" where
  "CanonicalMIMEHeaderKey s =
     (if list_all validHeaderFieldByte s then canonicalise True s else s)"

definition first_value :: "string list option \<Rightarrow> string" where
  "first_value vs = (case vs of None \<Rightarrow> [] | Some [] \<Rightarrow> [] | Some (v # _) \<Rightarrow> v)"

definition Header_Get :: "Header \<Rightarrow> string \<Rightarrow> string" where
  "Header_Get h key = first_value (h (CanonicalMIMEHeaderKey key))"

definition Values_Get :: "Values \<Rightarrow> string \<Rightarrow> string" where
  "Values_Get v key = first_value (v key)"

text \<open>
  The request body is a stream. \<open>io.ReadAll\<close> on it either returns all its bytes and
  leaves it at its end, or fails and leaves it in whatever state follows the failure
  (\<open>Failing b\<close>: the read fails, the stream is \<open>b\<close> afterwards).
\<close>

datatype body_reader = Reader string | Failing body_reader

fun ReadAll :: "body_reader \<Rightarrow> string option \<times> body_reader" where
  "ReadAll (Reader s) = (Some s, Reader [])"
| "ReadAll (Failing b) = (None, b)"

text \<open>
  What the handler reads of a \<open>*http.Request\<close>: the method, \<open>r.URL.Path\<close>, the
  header collection, the decoded query (\<open>r.URL.Query()\<close>), the body stream, and the
  request's context. \<open>Context_Done r d\<close> says whether, in a \<open>select\<close> between
  \<open>time.After(d)\<close> and \<open>r.Context().Done()\<close>, the context's channel is the case
  that fires: that is decided by the client and the scheduler, not by the handler.
\<close>

record Request =
  req_Method :: string
  URL_Path :: string
  req_Header :: Header
  URL_Query :: Values
  req_Body :: body_reader
  Context_Done :: "Duration \<Rightarrow> bool"

subsection \<open>net/http: the response writer\<close>

text \<open>
  An \<open>http.ResponseWriter\<close> is modelled by the calls it has received, oldest first.
\<close>

datatype call =
    Header_Set string string
  | Header_Del string
  | WriteHeader int64
  | Write string

type_synonym ResponseWriter = "call list"

fun status_of :: "ResponseWriter \<Rightarrow> int64 option" where
  "status_of [] = None"
| "status_of (WriteHeader code # w) = Some code"
| "status_of (_ # w) = status_of w"

fun body_of :: "ResponseWriter \<Rightarrow> string" where
  "body_of [] = []"
| "body_of (Write bytes # w) = bytes @ body_of w"
| "body_of (_ # w) = body_of w"

fun writes_of :: "ResponseWriter \<Rightarrow> string list" where
  "writes_of [] = []"
| "writes_of (Write bytes # w) = bytes # writes_of w"
| "writes_of (_ # w) = writes_of w"

text \<open>
  \<open>http.NotFound(w, r)\<close> is \<open>http.Error(w, "404 page not found", 404)\<close>: it drops
  a Content-Length header, sets the content type of a plain-text error, writes the
  status and prints the message with a newline.
\<close>

definition http_Error :: "ResponseWriter \<Rightarrow> string \<Rightarrow> int64 \<Rightarrow> ResponseWriter" where
  "http_Error w msg code =
     w @ [Header_Del ''Content-Length'',
          Header_Set ''Content-Type'' ''text/plain; charset=utf-8'',
          Header_Set ''X-Content-Type-Options'' ''nosniff'',
          WriteHeader code,
          Write (msg @ ''\<newline>'')]"

definition http_NotFound :: "ResponseWriter \<Rightarrow> ResponseWriter" where
  "http_NotFound w = http_Error w ''404 page not found'' 404"

subsection \<open>math/rand\<close>

text \<open>
  A \<open>*rand.Rand\<close> is a sequence of raw draws and a position in it. \<open>Intn(n)\<close>
  panics when \<open>n \<le> 0\<close>; otherwise it consumes one draw and returns a number of
  \<open>[0, n)\<close>. Reducing the raw draw modulo \<open>n\<close> reaches every number of that range, so
  every result the library's generator can give is the result for some sequence.
\<close>

record Rand =
  draws :: "nat \<Rightarrow> nat"
  pos :: nat

datatype panic = Panic string

definition Intn :: "Rand \<Rightarrow> int64 \<Rightarrow> panic + int64 \<times> Rand" where
  "Intn g n =
     (if sint n \<le> 0 then Inl (Panic ''invalid argument to Intn'')
      else Inr (word_of_int (int (draws g (pos g)) mod sint n), g\<lparr>pos := Suc (pos g)\<rparr>))"

definition Millisecond :: Duration where
  "Millisecond = 1000000"

text \<open>\<open>Duration.Milliseconds\<close>: the signed quotient by a million, truncated towards zero.\<close>

definition Milliseconds :: "Duration \<Rightarrow> int" where
  "Milliseconds d = sgn (sint d) * (\<bar>sint d\<bar> div 1000000)"

section \<open>The handler (internal/handler/mockHandler.go)\<close>

text \<open>
  The handler holds the configuration and the random source. (Its mutex orders the
  draws of concurrent requests; one request is modelled at a time.)
\<close>

record 'v MockHandler =
  config :: "'v Config"
  rand :: Rand

subsection \<open>Predicate matchers\<close>

fun matchesHeaders :: "('r, 'v) stdlib \<Rightarrow> (string \<times> string) list \<Rightarrow> Header \<Rightarrow> bool" where
  "matchesHeaders L [] requestHeaders = True"
| "matchesHeaders L ((headerName, headerPattern) # rest) requestHeaders =
     (let requestValue = Header_Get requestHeaders headerName in
      case regexp_Compile L headerPattern of
        None \<Rightarrow>
          if requestValue \<noteq> headerPattern then False
          else matchesHeaders L rest requestHeaders
      | Some pattern \<Rightarrow>
          if \<not> MatchString L pattern requestValue then False
          else matchesHeaders L rest requestHeaders)"

fun matchesQueryParams :: "('r, 'v) stdlib \<Rightarrow> (string \<times> string) list \<Rightarrow> Values \<Rightarrow> bool" where
  "matchesQueryParams L [] requestParams = True"
| "matchesQueryParams L ((paramName, paramPattern) # rest) requestParams =
     (let requestValue = Values_Get requestParams paramName in
      case regexp_Compile L paramPattern of
        None \<Rightarrow>
          if requestValue \<noteq> paramPattern then False
          else matchesQueryParams L rest requestParams
      | Some pattern \<Rightarrow>
          if \<not> MatchString L pattern requestValue then False
          else matchesQueryParams L rest requestParams)"

text \<open>
  \<open>matchesBody\<close> reads the body stream and, when the read succeeds, puts a fresh
  reader over the bytes in its place; it returns the verdict and the request as it
  leaves it.
\<close>

definition matchesBody :: "('r, 'v) stdlib \<Rightarrow> string \<Rightarrow> Request \<Rightarrow> bool \<times> Request" where
  "matchesBody L ruleBody r =
     (if ruleBody = [] then (True, r)
      else case ReadAll (req_Body r) of
             (None, b) \<Rightarrow> (False, r\<lparr>req_Body := b\<rparr>)
           | (Some body, b) \<Rightarrow>
               (let r' = r\<lparr>req_Body := Reader body\<rparr> in
                case regexp_Compile L ruleBody of
                  None \<Rightarrow> (False, r')
                | Some pattern \<Rightarrow> (MatchString L pattern body, r')))"

subsection \<open>Rule selector\<close>

text \<open>
  The loop of \<open>findMatchingRule\<close> over \<open>h.config.Requests\<close>, from index \<open>i\<close> on.
  The returned pointer \<open>&h.config.Requests[i]\<close> is the index \<open>i\<close>; \<open>nil\<close> is
  \<open>None\<close>.
\<close>

fun findMatchingRule_from ::
  "('r, 'v) stdlib \<Rightarrow> nat \<Rightarrow> 'v RequestRule list \<Rightarrow> Request \<Rightarrow> nat option \<times> Request" where
  "findMatchingRule_from L i [] r = (None, r)"
| "findMatchingRule_from L i (rule # rest) r =
     (if Path rule \<noteq> URL_Path r then findMatchingRule_from L (Suc i) rest r
      else if Method rule \<noteq> strings_ToUpper L (req_Method r)
        then findMatchingRule_from L (Suc i) rest r
      else if \<not> matchesHeaders L (Headers rule) (req_Header r)
        then findMatchingRule_from L (Suc i) rest r
      else if \<not> matchesQueryParams L (QueryParams rule) (URL_Query r)
        then findMatchingRule_from L (Suc i) rest r
      else case matchesBody L (Body rule) r of
             (False, r') \<Rightarrow> findMatchingRule_from L (Suc i) rest r'
           | (True, r') \<Rightarrow> (Some i, r'))"

definition findMatchingRule ::
  "('r, 'v) stdlib \<Rightarrow> 'v MockHandler \<Rightarrow> Request \<Rightarrow> nat option \<times> Request" where
  "findMatchingRule L h r = findMatchingRule_from L 0 (Requests (config h)) r"

subsection \<open>Delay calculator\<close>

definition calculateDelay ::
  "'v MockHandler \<Rightarrow> ResponseDelay \<Rightarrow> panic + Duration \<times> 'v MockHandler" where
  "calculateDelay h delay =
     (if sint (DelayMax delay) > sint (DelayMin delay) then
        case Intn (rand h) (DelayMax delay - DelayMin delay + 1) of
          Inl p \<Rightarrow> Inl p
        | Inr (k, g) \<Rightarrow> Inr ((DelayMin delay + k) * Millisecond, h\<lparr>rand := g\<rparr>)
      else Inr (DelayMin delay * Millisecond, h))"

subsection \<open>Response synthesizer\<close>

text \<open>
  \<open>writeBody\<close> returns the writer and the error, if any. (The writer of the model
  accepts every write.)
\<close>

definition writeBody ::
  "('r, 'v) stdlib \<Rightarrow> ResponseWriter \<Rightarrow> 'v body_value \<Rightarrow> ResponseWriter \<times> string option" where
  "writeBody L w body =
     (case body of
        StringBody v \<Rightarrow> (w @ [Write v], None)
      | OtherBody v \<Rightarrow>
          (case json_Marshal L v of
             None \<Rightarrow> (w, Some ''failed to marshal JSON'')
           | Some data \<Rightarrow> (w @ [Write data], None))
      | NilBody \<Rightarrow> (w @ [Write ''null''], None))"

text \<open>
  What a call of \<open>writeResponse\<close> or \<open>ServeHTTP\<close> leaves behind: the handler
  (its random source), the writer, the request, the duration it gave to
  \<open>time.After\<close> if it waited, and whether it returned from the \<open>select\<close> on the
  context's channel. (The message printed when \<open>writeBody\<close> fails is not modelled.)
\<close>

record 'v outcome =
  handler_after :: "'v MockHandler"
  writer_after :: ResponseWriter
  request_after :: Request
  waited :: "Duration option"
  aborted :: bool

definition setHeaders :: "ResponseWriter \<Rightarrow> (string \<times> string) list \<Rightarrow> ResponseWriter" where
  "setHeaders w hs = w @ map (\<lambda>(key, val). Header_Set key val) hs"

definition writeResponse ::
  "('r, 'v) stdlib \<Rightarrow> 'v MockHandler \<Rightarrow> ResponseWriter \<Rightarrow> Request \<Rightarrow> 'v RequestRule
     \<Rightarrow> panic + 'v outcome" where
  "writeResponse L h w r rule =
     (case (case ResponseDelay rule of
              None \<Rightarrow> Inr (h, None, False)
            | Some delay \<Rightarrow>
                (case calculateDelay h delay of
                   Inl p \<Rightarrow> Inl p
                 | Inr (duration, h') \<Rightarrow> Inr (h', Some duration, Context_Done r duration))) of
        Inl p \<Rightarrow> Inl p
      | Inr (h', slept, done) \<Rightarrow>
          if done then
            Inr \<lparr>handler_after = h', writer_after = w, request_after = r,
                 waited = slept, aborted = True\<rparr>
          else
            (let w1 = setHeaders w (RespHeaders (Response rule));
                 w2 = w1 @ [WriteHeader (StatusCode (Response rule))];
                 w3 = (if RespBody (Response rule) = NilBody then w2
                       else fst (writeBody L w2 (RespBody (Response rule))))
             in Inr \<lparr>handler_after = h', writer_after = w3, request_after = r,
                     waited = slept, aborted = False\<rparr>))"

subsection \<open>Request dispatcher\<close>

definition ServeHTTP ::
  "('r, 'v) stdlib \<Rightarrow> 'v MockHandler \<Rightarrow> ResponseWriter \<Rightarrow> Request \<Rightarrow> panic + 'v outcome" where
  "ServeHTTP L h w r =
     (case findMatchingRule L h r of
        (None, r') \<Rightarrow>
          Inr \<lparr>handler_after = h, writer_after = http_NotFound w, request_after = r',
               waited = None, aborted = False\<rparr>
      | (Some i, r') \<Rightarrow> writeResponse L h w r' (Requests (config h) ! i))"

section \<open>A regular-expression engine\<close>

text \<open>
  An executable instance of the \<open>regexp\<close> functions, for a fragment of the library's
  syntax: literal characters, \<open>.\<close>, the repetitions \<open>*\<close>, \<open>+\<close>, \<open>?\<close> (and
  their non-greedy forms), alternation, groups, bracket expressions with ranges and
  negation, and a backslash before a punctuation character. The parser is one pass over
  the pattern with the library parser's stack of open groups; inside the fragment it
  reports the library's syntax errors (a bracket or a group left open, a repetition
  without an operand or after a repetition, a range whose ends are out of order, a
  trailing backslash). Anchors, counted repetition, flags, named and Perl classes and
  text outside ASCII are outside the fragment and answered \<open>Unsupported\<close>. Matching is
  by derivatives, on bytes; a match anywhere in the value counts, as for
  \<open>MatchString\<close>.
\<close>

datatype re =
    NoMatch
  | EmptyMatch
  | Lit char
  | AnyCharNotNL
  | CharClass bool "(char \<times> char) list"
  | Concat re re
  | Alternate re re
  | Star re

datatype syntax_error =
    ErrMissingBracket
  | ErrMissingParen
  | ErrUnexpectedParen
  | ErrMissingRepeatArgument
  | ErrInvalidRepeatOp
  | ErrInvalidCharRange
  | ErrTrailingBackslash
  | Unsupported

text \<open>
  The parser's state. \<open>rep\<close> remembers whether the last thing read was a repetition
  operator (\<open>JustRep\<close>: a \<open>?\<close> may still make it non-greedy; \<open>LazyRep\<close>: it has),
  since a repetition may not follow a repetition. \<open>mode\<close> says where in the pattern
  the parser is: after an opening parenthesis (a \<open>?\<close> there starts a flag group), after
  a backslash, or inside a bracket expression, with its negation, the ranges read so
  far, and the lower end of a range being read. \<open>alts\<close> and \<open>cur\<close> hold the
  finished alternatives and the items of the current alternative of the group being
  read, latest first; \<open>outer\<close> holds the same for the enclosing groups.
\<close>

datatype rep_state = NoRep | JustRep | LazyRep

datatype mode =
    Normal
  | AfterParen
  | Escape
  | ClassOpen
  | ClassElem bool bool "(char \<times> char) list"
  | ClassLo bool "(char \<times> char) list" char
  | ClassDash bool "(char \<times> char) list" char

record pstate =
  mode :: mode
  rep :: rep_state
  alts :: "re list"
  cur :: "re list"
  outer :: "(re list \<times> re list) list"

definition isAscii :: "char \<Rightarrow> bool" where
  "isAscii c \<longleftrightarrow> c < CHR 0x80"

definition isAlnum :: "char \<Rightarrow> bool" where
  "isAlnum c \<longleftrightarrow>
     (CHR ''0'' \<le> c \<and> c \<le> CHR ''9'') \<or> (CHR ''A'' \<le> c \<and> c \<le> CHR ''Z'') \<or>
     (CHR ''a'' \<le> c \<and> c \<le> CHR ''z'')"

fun mkConcat :: "re list \<Rightarrow> re" where
  "mkConcat [] = EmptyMatch"
| "mkConcat [x] = x"
| "mkConcat (x # xs) = Concat x (mkConcat xs)"

fun mkAlternate :: "re list \<Rightarrow> re" where
  "mkAlternate [] = NoMatch"
| "mkAlternate [x] = x"
| "mkAlternate (x # xs) = Alternate x (mkAlternate xs)"

definition collapse :: "re list \<Rightarrow> re list \<Rightarrow> re" where
  "collapse as cs = mkAlternate (rev (mkConcat (rev cs) # as))"

definition push :: "pstate \<Rightarrow> re \<Rightarrow> pstate" where
  "push st x = st\<lparr>mode := Normal, rep := NoRep, cur := x # cur st\<rparr>"

definition repeat :: "pstate \<Rightarrow> char \<Rightarrow> syntax_error + pstate" where
  "repeat st c =
     (if rep st = JustRep \<and> c = CHR ''?'' then Inr (st\<lparr>rep := LazyRep\<rparr>)
      else if rep st \<noteq> NoRep then Inl ErrInvalidRepeatOp
      else case cur st of
             [] \<Rightarrow> Inl ErrMissingRepeatArgument
           | x # xs \<Rightarrow>
               Inr (st\<lparr>rep := JustRep,
                       cur := (if c = CHR ''*'' then Star x
                               else if c = CHR ''+'' then Concat x (Star x)
                               else Alternate x EmptyMatch) # xs\<rparr>))"

definition normal_step :: "pstate \<Rightarrow> char \<Rightarrow> syntax_error + pstate" where
  "normal_step st c =
     (if c = CHR ''('' then Inr (st\<lparr>mode := AfterParen\<rparr>)
      else if c = CHR ''|'' then
        Inr (st\<lparr>rep := NoRep, alts := mkConcat (rev (cur st)) # alts st, cur := []\<rparr>)
      else if c = CHR '')'' then
        (case outer st of
           [] \<Rightarrow> Inl ErrUnexpectedParen
         | (as, cs) # fs \<Rightarrow>
             Inr (st\<lparr>rep := NoRep, alts := as, cur := collapse (alts st) (cur st) # cs,
                     outer := fs\<rparr>))
      else if c = CHR ''*'' \<or> c = CHR ''+'' \<or> c = CHR ''?'' then repeat st c
      else if c = CHR ''.'' then Inr (push st AnyCharNotNL)
      else if c = CHR ''['' then Inr (st\<lparr>mode := ClassOpen\<rparr>)
      else if c = CHR 0x5C then Inr (st\<lparr>mode := Escape\<rparr>)
      else if c = CHR ''^'' \<or> c = CHR ''$'' \<or> c = CHR ''{'' \<or> \<not> isAscii c then Inl Unsupported
      else Inr (push st (Lit c)))"

definition class_elem_step ::
  "pstate \<Rightarrow> bool \<Rightarrow> bool \<Rightarrow> (char \<times> char) list \<Rightarrow> char \<Rightarrow> syntax_error + pstate" where
  "class_elem_step st first neg rs c =
     (if c = CHR '']'' \<and> \<not> first then Inr (push st (CharClass neg (rev rs)))
      else if c = CHR 0x5C \<or> \<not> isAscii c then Inl Unsupported
      else Inr (st\<lparr>mode := ClassLo neg rs c\<rparr>))"

definition step :: "pstate \<Rightarrow> char \<Rightarrow> syntax_error + pstate" where
  "step st c =
     (case mode st of
        Normal \<Rightarrow> normal_step st c
      | AfterParen \<Rightarrow>
          if c = CHR ''?'' then Inl Unsupported
          else normal_step
                 (st\<lparr>mode := Normal, rep := NoRep, alts := [], cur := [],
                     outer := (alts st, cur st) # outer st\<rparr>) c
      | Escape \<Rightarrow>
          if isAscii c \<and> \<not> isAlnum c then Inr (push st (Lit c)) else Inl Unsupported
      | ClassOpen \<Rightarrow>
          if c = CHR ''^'' then Inr (st\<lparr>mode := ClassElem True True []\<rparr>)
          else class_elem_step st True False [] c
      | ClassElem first neg rs \<Rightarrow> class_elem_step st first neg rs c
      | ClassLo neg rs lo \<Rightarrow>
          if lo = CHR ''['' \<and> c = CHR '':'' then Inl Unsupported
          else if c = CHR ''-'' then Inr (st\<lparr>mode := ClassDash neg rs lo\<rparr>)
          else class_elem_step st False neg ((lo, lo) # rs) c
      | ClassDash neg rs lo \<Rightarrow>
          if c = CHR '']'' then
            Inr (push st (CharClass neg (rev ((CHR ''-'', CHR ''-'') # (lo, lo) # rs))))
          else if c = CHR 0x5C \<or> \<not> isAscii c then Inl Unsupported
          else if c < lo then Inl ErrInvalidCharRange
          else Inr (st\<lparr>mode := ClassElem False neg ((lo, c) # rs)\<rparr>))"

definition finish :: "pstate \<Rightarrow> syntax_error + re" where
  "finish st =
     (case mode st of
        Normal \<Rightarrow>
          (if outer st = [] then Inr (collapse (alts st) (cur st)) else Inl ErrMissingParen)
      | AfterParen \<Rightarrow> Inl ErrMissingParen
      | Escape \<Rightarrow> Inl ErrTrailingBackslash
      | _ \<Rightarrow> Inl ErrMissingBracket)"

fun parse_from :: "pstate \<Rightarrow> string \<Rightarrow> syntax_error + re" where
  "parse_from st [] = finish st"
| "parse_from st (c # cs) =
     (case step st c of
        Inl e \<Rightarrow> Inl e
      | Inr st' \<Rightarrow> parse_from st' cs)"

definition Parse :: "string \<Rightarrow> syntax_error + re" where
  "Parse s = parse_from \<lparr>mode = Normal, rep = NoRep, alts = [], cur = [], outer = []\<rparr> s"

text \<open>
  Matching: \<open>nullable\<close> says whether an expression matches the empty string,
  \<open>deriv c x\<close> matches what \<open>x\<close> matches after a leading \<open>c\<close>;
  \<open>matchPrefix\<close> looks for a match at the start of the text, \<open>matchAnywhere\<close> at
  every position. A dot does not match a newline; a negated bracket expression does.
\<close>

definition in_class :: "bool \<Rightarrow> (char \<times> char) list \<Rightarrow> char \<Rightarrow> bool" where
  "in_class neg rs c \<longleftrightarrow> (neg \<noteq> list_ex (\<lambda>(lo, hi). lo \<le> c \<and> c \<le> hi) rs)"

primrec nullable :: "re \<Rightarrow> bool" where
  "nullable NoMatch = False"
| "nullable EmptyMatch = True"
| "nullable (Lit c) = False"
| "nullable AnyCharNotNL = False"
| "nullable (CharClass neg rs) = False"
| "nullable (Concat x y) = (nullable x \<and> nullable y)"
| "nullable (Alternate x y) = (nullable x \<or> nullable y)"
| "nullable (Star x) = True"

primrec deriv :: "char \<Rightarrow> re \<Rightarrow> re" where
  "deriv c NoMatch = NoMatch"
| "deriv c EmptyMatch = NoMatch"
| "deriv c (Lit d) = (if c = d then EmptyMatch else NoMatch)"
| "deriv c AnyCharNotNL = (if c = CHR 0x0A then NoMatch else EmptyMatch)"
| "deriv c (CharClass neg rs) = (if in_class neg rs c then EmptyMatch else NoMatch)"
| "deriv c (Concat x y) =
     (if nullable x then Alternate (Concat (deriv c x) y) (deriv c y)
      else Concat (deriv c x) y)"
| "deriv c (Alternate x y) = Alternate (deriv c x) (deriv c y)"
| "deriv c (Star x) = Concat (deriv c x) (Star x)"

fun matchPrefix :: "re \<Rightarrow> string \<Rightarrow> bool" where
  "matchPrefix x [] = nullable x"
| "matchPrefix x (c # cs) = (nullable x \<or> matchPrefix (deriv c x) cs)"

fun matchAnywhere :: "re \<Rightarrow> string \<Rightarrow> bool" where
  "matchAnywhere x [] = nullable x"
| "matchAnywhere x (c # cs) = (matchPrefix x (c # cs) \<or> matchAnywhere x cs)"

text \<open>
  The instance of \<open>regexp.Compile\<close>: a pattern outside the fragment is refused, which
  the library would not do; the instance is used at patterns inside the fragment only.
\<close>

definition Compile :: "string \<Rightarrow> re option" where
  "Compile s = (case Parse s of Inl e \<Rightarrow> None | Inr x \<Rightarrow> Some x)"

section \<open>A JSON encoder\<close>

text \<open>
  An executable instance of \<open>json.Marshal\<close> on the values a YAML document decodes to,
  numbers apart: \<open>null\<close>, booleans, strings, lists and maps with string keys (encoded
  in the order of their keys, strings escaped as the library escapes ASCII text). A
  floating-point infinity or NaN (\<open>.inf\<close>, \<open>.nan\<close> in YAML) is a value the library
  refuses to encode.
\<close>

datatype json =
    JNull
  | JBool bool
  | JString string
  | JArray "json list"
  | JObject "(string \<times> json) list"
  | JNonFinite

definition hexDigit :: "nat \<Rightarrow> char" where
  "hexDigit n = (''0123456789abcdef'' ! (n mod 16))"

definition escapeByte :: "char \<Rightarrow> string" where
  "escapeByte c =
     (if c = CHR 0x22 \<or> c = CHR 0x5C then [CHR 0x5C, c]
      else if c = CHR 0x08 then [CHR 0x5C, CHR ''b'']
      else if c = CHR 0x0C then [CHR 0x5C, CHR ''f'']
      else if c = CHR 0x0A then [CHR 0x5C, CHR ''n'']
      else if c = CHR 0x0D then [CHR 0x5C, CHR ''r'']
      else if c = CHR 0x09 then [CHR 0x5C, CHR ''t'']
      else if c < CHR 0x20 \<or> c = CHR ''<'' \<or> c = CHR ''>'' \<or> c = CHR ''&'' then
        [CHR 0x5C, CHR ''u'', CHR ''0'', CHR ''0'',
         hexDigit (of_char c div 16), hexDigit (of_char c)]
      else [c])"

definition quote :: "string \<Rightarrow> string" where
  "quote s = [CHR 0x22] @ concat (map escapeByte s) @ [CHR 0x22]"

fun insertEntry :: "string \<times> 'a \<Rightarrow> (string \<times> 'a) list \<Rightarrow> (string \<times> 'a) list" where
  "insertEntry e [] = [e]"
| "insertEntry e (x # xs) = (if fst e \<le> fst x then e # x # xs else x # insertEntry e xs)"

definition sortEntries :: "(string \<times> 'a) list \<Rightarrow> (string \<times> 'a) list" where
  "sortEntries xs = foldr insertEntry xs []"

fun joinComma :: "string list \<Rightarrow> string" where
  "joinComma [] = []"
| "joinComma [x] = x"
| "joinComma (x # xs) = x @ '','' @ joinComma xs"

fun Marshal :: "json \<Rightarrow> string option" where
  "Marshal JNull = Some ''null''"
| "Marshal (JBool b) = Some (if b then ''true'' else ''false'')"
| "Marshal (JString s) = Some (quote s)"
| "Marshal (JArray xs) =
     (case those (map Marshal xs) of
        None \<Rightarrow> None
      | Some ys \<Rightarrow> Some (''['' @ joinComma ys @ '']''))"
| "Marshal (JObject kvs) =
     (case those (map (\<lambda>(k, y). map_option (\<lambda>z. quote k @ '':'' @ z) y)
                      (sortEntries (map (\<lambda>(k, v). (k, Marshal v)) kvs))) of
        None \<Rightarrow> None
      | Some ys \<Rightarrow> Some (''{'' @ joinComma ys @ ''}''))"
| "Marshal JNonFinite = None"

definition go_stdlib :: "(re, json) stdlib" where
  "go_stdlib =
     \<lparr>strings_ToUpper = ToUpperASCII, regexp_Compile = Compile, MatchString = matchAnywhere,
      json_Marshal = Marshal\<rparr>"

section \<open>Notions used in the statements\<close>

text \<open>
  The verdict of one turn of the loops of \<open>matchesHeaders\<close> and
  \<open>matchesQueryParams\<close>, on one entry's pattern and the request's value for it.
\<close>

definition patternMatches :: "('r, 'v) stdlib \<Rightarrow> string \<Rightarrow> string \<Rightarrow> bool" where
  "patternMatches L pattern val =
     (case regexp_Compile L pattern of
        None \<Rightarrow> val = pattern
      | Some x \<Rightarrow> MatchString L x val)"

text \<open>
  A rule satisfies all matching conditions on a request: the five tests of one turn of
  the selector's loop, in the loop's order. The second is the selector's method
  condition.
\<close>

definition methodMatches :: "('r, 'v) stdlib \<Rightarrow> 'v RequestRule \<Rightarrow> Request \<Rightarrow> bool" where
  "methodMatches L rule r \<longleftrightarrow> Method rule = strings_ToUpper L (req_Method r)"

definition ruleMatches :: "('r, 'v) stdlib \<Rightarrow> 'v RequestRule \<Rightarrow> Request \<Rightarrow> bool" where
  "ruleMatches L rule r \<longleftrightarrow>
     Path rule = URL_Path r \<and>
     methodMatches L rule r \<and>
     matchesHeaders L (Headers rule) (req_Header r) \<and>
     matchesQueryParams L (QueryParams rule) (URL_Query r) \<and>
     fst (matchesBody L (Body rule) r)"

text \<open>
  The request as one turn of the loop leaves it: the body stream is touched only when
  the turn gets as far as the body test.
\<close>

definition afterRule :: "('r, 'v) stdlib \<Rightarrow> 'v RequestRule \<Rightarrow> Request \<Rightarrow> Request" where
  "afterRule L rule r =
     (if Path rule = URL_Path r \<and>
         methodMatches L rule r \<and>
         matchesHeaders L (Headers rule) (req_Header r) \<and>
         matchesQueryParams L (QueryParams rule) (URL_Query r)
      then snd (matchesBody L (Body rule) r)
      else r)"

text \<open>
  The request as the selector finds it when it comes to the rule of index \<open>i\<close>, after
  the turns for the rules before it; and "the rule of index \<open>i\<close> satisfies all matching
  conditions" read at that moment. For a request whose body can be read the request
  never changes (lemma \<open>requestAt_readable\<close>).
\<close>

definition requestAt ::
  "('r, 'v) stdlib \<Rightarrow> 'v RequestRule list \<Rightarrow> Request \<Rightarrow> nat \<Rightarrow> Request" where
  "requestAt L rules r i = foldl (\<lambda>q rule. afterRule L rule q) r (take i rules)"

definition satisfiedAt ::
  "('r, 'v) stdlib \<Rightarrow> 'v RequestRule list \<Rightarrow> Request \<Rightarrow> nat \<Rightarrow> bool" where
  "satisfiedAt L rules r i \<longleftrightarrow>
     i < length rules \<and> ruleMatches L (rules ! i) (requestAt L rules r i)"

definition readable :: "Request \<Rightarrow> bool" where
  "readable r = (case req_Body r of Reader s \<Rightarrow> True | Failing b \<Rightarrow> False)"

text \<open>The outcome of a call that did not panic.\<close>

definition returned :: "panic + 'v outcome \<Rightarrow> 'v outcome option" where
  "returned x = (case x of Inl p \<Rightarrow> None | Inr out \<Rightarrow> Some out)"

definition written :: "panic + 'v outcome \<Rightarrow> ResponseWriter option" where
  "written x = map_option writer_after (returned x)"

text \<open>
  The wait of \<open>writeResponse\<close> runs to its end, read on the inputs: the rule has no
  delay, or the calculator returns a duration and the request's context is not done
  before that duration has passed (the \<open>select\<close> fires on \<open>time.After\<close>).
\<close>

definition waitCompletes :: "'v MockHandler \<Rightarrow> Request \<Rightarrow> 'v RequestRule \<Rightarrow> bool" where
  "waitCompletes h r rule =
     (case ResponseDelay rule of
        None \<Rightarrow> True
      | Some delay \<Rightarrow>
          (case calculateDelay h delay of
             Inl p \<Rightarrow> False
           | Inr (duration, h') \<Rightarrow> \<not> Context_Done r duration))"

section \<open>Handlers and requests of the test suite\<close>

text \<open>
  \<open>NewMockHandlerWithRand\<close> of the source, and the request that the tests'
  \<open>performRequest\<close> builds with \<open>httptest.NewRequest\<close> and \<open>Header.Set\<close>: its
  body can be read and its context is never cancelled.
\<close>

definition NewMockHandlerWithRand :: "'v Config \<Rightarrow> Rand \<Rightarrow> 'v MockHandler" where
  "NewMockHandlerWithRand cfg g = \<lparr>config = cfg, rand = g\<rparr>"

definition NewRequest ::
  "string \<Rightarrow> string \<Rightarrow> (string \<times> string) list \<Rightarrow> (string \<times> string list) list \<Rightarrow> string
     \<Rightarrow> Request" where
  "NewRequest method path headers query body =
     \<lparr>req_Method = method, URL_Path = path,
      req_Header = foldl (\<lambda>h (k, v). h(CanonicalMIMEHeaderKey k \<mapsto> [v])) Map.empty headers,
      URL_Query = map_of query,
      req_Body = Reader body,
      Context_Done = (\<lambda>d. False)\<rparr>"

definition newRule :: "string \<Rightarrow> string \<Rightarrow> int64 \<Rightarrow> 'v body_value \<Rightarrow> 'v RequestRule" where
  "newRule path method code body =
     \<lparr>Path = path, Headers = [], QueryParams = [], Method = method,
      Response = \<lparr>RespBody = body, StatusCode = code, RespHeaders = []\<rparr>,
      Body = [], ResponseDelay = None\<rparr>"

definition newConfig :: "'v RequestRule list \<Rightarrow> 'v Config" where
  "newConfig rules = \<lparr>Server = \<lparr>Port = 0\<rparr>, Requests = rules\<rparr>"

definition seeded :: Rand where
  "seeded = \<lparr>draws = (\<lambda>n. 42 + 7 * n), pos = 0\<rparr>"

definition handlerOf :: "json RequestRule list \<Rightarrow> json MockHandler" where
  "handlerOf rules = NewMockHandlerWithRand (newConfig rules) seeded"

text \<open>
  The handler as \<open>main\<close> builds it: the configuration has gone through \<open>setDefaults\<close>
  (\<open>config.Load\<close>) before the handler receives it.
\<close>

definition loadedHandlerOf :: "json RequestRule list \<Rightarrow> json MockHandler" where
  "loadedHandlerOf rules =
     NewMockHandlerWithRand (setDefaults go_stdlib (newConfig rules)) seeded"

text \<open>The rules of the tests \<open>ExactMatch\<close>, \<open>WildcardAny\<close>, \<open>NotFound\<close>, \<open>ResponseHeaders\<close>.\<close>

definition rule_ExactMatch :: "json RequestRule" where
  "rule_ExactMatch =
     (newRule ''/foo'' ''GET'' 200 (OtherBody (JObject [(''message'', JString ''ok'')])))
       \<lparr>Headers := [(''Content-Type'', ''application/json'')]\<rparr>"

text \<open>The body the test \<open>ExactMatch\<close> expects: \<open>{"message":"ok"}\<close>.\<close>

definition json_message_ok :: string where
  "json_message_ok =
     ''{'' @ [CHR 0x22] @ ''message'' @ [CHR 0x22] @ '':'' @ [CHR 0x22] @ ''ok'' @ [CHR 0x22] @ ''}''"

definition rule_WildcardAny :: "json RequestRule" where
  "rule_WildcardAny =
     (newRule ''/bar'' ''POST'' 201 NilBody)\<lparr>Headers := [(''Content-Type'', ''.*'')]\<rparr>"

definition rule_NotFound :: "json RequestRule" where
  "rule_NotFound =
     (newRule ''/q'' ''GET'' 200 NilBody)\<lparr>Headers := [(''Content-Type'', ''text/plain'')]\<rparr>"

definition rule_ResponseHeaders :: "json RequestRule" where
  "rule_ResponseHeaders =
     (newRule ''/headers'' ''GET'' 200 (StringBody ''ok''))
       \<lparr>Headers := [(''Content-Type'', ''text/plain'')],
        Response := \<lparr>RespBody = StringBody ''ok'', StatusCode = 200,
                     RespHeaders = [(''X-Test'', ''yes'')]\<rparr>\<rparr>"

text \<open>The rules of \<open>QueryParamRegexMatch\<close> and \<open>QueryParamInvalidRegexFallsBackToExact\<close>.\<close>

definition rule_QueryParamRegex :: "json RequestRule" where
  "rule_QueryParamRegex =
     (newRule ''/search'' ''GET'' 200 NilBody)\<lparr>QueryParams := [(''page'', ''[0-9]+'')]\<rparr>"

definition rule_InvalidRegex :: "json RequestRule" where
  "rule_InvalidRegex =
     (newRule ''/test'' ''GET'' 200 NilBody)\<lparr>QueryParams := [(''pattern'', ''[invalid(regex'')]\<rparr>"

text \<open>The rules of \<open>ResponseDelayFixed\<close> and \<open>ResponseDelayRange\<close>.\<close>

definition rule_DelayFixed :: "json RequestRule" where
  "rule_DelayFixed =
     (newRule ''/delayed'' ''GET'' 200 (StringBody ''delayed response''))
       \<lparr>ResponseDelay := Some \<lparr>DelayMin = 100, DelayMax = 100\<rparr>\<rparr>"

definition rule_DelayRange :: "json RequestRule" where
  "rule_DelayRange =
     (newRule ''/delayed-range'' ''GET'' 200 (StringBody ''delayed response''))
       \<lparr>ResponseDelay := Some \<lparr>DelayMin = 50, DelayMax = 150\<rparr>\<rparr>"

text \<open>Two rules for one path and method.\<close>

definition rules_Ping :: "json RequestRule list" where
  "rules_Ping =
     [rule_NotFound,
      newRule ''/ping'' ''GET'' 200 (StringBody ''pong''),
      newRule ''/ping'' ''GET'' 200 (StringBody ''late'')]"

text \<open>
  Delay pairs outside what \<open>validate\<close> admits: a pair in the wrong order, a delay
  too long for a \<open>time.Duration\<close>, the same with a smaller maximum, and the widest span
  of non-negative bounds.
\<close>

definition delay_Reversed :: ResponseDelay where
  "delay_Reversed = \<lparr>DelayMin = 150, DelayMax = 50\<rparr>"

definition delay_TooLong :: ResponseDelay where
  "delay_TooLong = \<lparr>DelayMin = 9223372036855, DelayMax = 9223372036855\<rparr>"

definition delay_TooLongReversed :: ResponseDelay where
  "delay_TooLongReversed = \<lparr>DelayMin = 9223372036855, DelayMax = 0\<rparr>"

definition delay_Widest :: ResponseDelay where
  "delay_Widest = \<lparr>DelayMin = 0, DelayMax = 9223372036854775807\<rparr>"

text \<open>A request whose client is gone: any wait ends on the context's channel.\<close>

definition disconnected :: "Request \<Rightarrow> Request" where
  "disconnected r = r\<lparr>Context_Done := (\<lambda>d. True)\<rparr>"

text \<open>A rule as a configuration file may spell it: the method in lower case.\<close>

definition rule_lowercase :: "json RequestRule" where
  "rule_lowercase = newRule ''/submit'' ''post'' 0 NilBody"

section \<open>The selector: what the loop computes\<close>

lemma matchesBody_readable:
  "req_Body r = Reader s \<Longrightarrow> snd (matchesBody L p r) = r"
  by (cases r) (simp add: matchesBody_def Let_def split: option.splits)

lemma afterRule_readable:
  "req_Body r = Reader s \<Longrightarrow> afterRule L rule r = r"
  by (simp add: afterRule_def matchesBody_readable)

lemma foldl_afterRule_readable:
  "req_Body r = Reader s \<Longrightarrow> foldl (\<lambda>q rule. afterRule L rule q) r rules = r"
  by (induction rules) (simp_all add: afterRule_readable)

lemma requestAt_readable:
  "readable r \<Longrightarrow> requestAt L rules r i = r"
  by (cases "req_Body r") (simp_all add: readable_def requestAt_def foldl_afterRule_readable)

lemma satisfiedAt_readable:
  "readable r \<Longrightarrow> satisfiedAt L rules r i \<longleftrightarrow> i < length rules \<and> ruleMatches L (rules ! i) r"
  by (simp add: satisfiedAt_def requestAt_readable)

lemma requestAt_0: "requestAt L rules r 0 = r"
  by (simp add: requestAt_def)

lemma requestAt_Suc: "requestAt L (rule # rest) r (Suc j) = requestAt L rest (afterRule L rule r) j"
  by (simp add: requestAt_def)

lemma satisfiedAt_0: "satisfiedAt L (rule # rest) r 0 = ruleMatches L rule r"
  by (simp add: satisfiedAt_def requestAt_0)

lemma satisfiedAt_Suc:
  "satisfiedAt L (rule # rest) r (Suc j) = satisfiedAt L rest (afterRule L rule r) j"
  by (simp add: satisfiedAt_def requestAt_Suc)

lemma satisfiedAt_Nil: "\<not> satisfiedAt L [] r j"
  by (simp add: satisfiedAt_def)

lemma findMatchingRule_from_step:
  "findMatchingRule_from L i (rule # rest) r =
     (if ruleMatches L rule r then (Some i, snd (matchesBody L (Body rule) r))
      else findMatchingRule_from L (Suc i) rest (afterRule L rule r))"
  by (auto simp: ruleMatches_def methodMatches_def afterRule_def split: prod.splits bool.splits)

declare findMatchingRule_from.simps(2) [simp del]

lemma findMatchingRule_from_Some:
  "fst (findMatchingRule_from L i rules r) = Some k \<longleftrightarrow>
     i \<le> k \<and> satisfiedAt L rules r (k - i) \<and> (\<forall>j < k - i. \<not> satisfiedAt L rules r j)"
proof (induction rules arbitrary: i r)
  case Nil
  then show ?case by (simp add: satisfiedAt_Nil)
next
  case (Cons rule rest)
  show ?case
  proof (cases "ruleMatches L rule r")
    case True
    have "(\<forall>j < k - i. \<not> satisfiedAt L (rule # rest) r j) \<longleftrightarrow> k - i = 0"
      using True satisfiedAt_0 [of L rule rest r] by (cases "k - i") auto
    with True show ?thesis
      by (auto simp: findMatchingRule_from_step satisfiedAt_0)
  next
    case False
    have step: "fst (findMatchingRule_from L i (rule # rest) r) =
          fst (findMatchingRule_from L (Suc i) rest (afterRule L rule r))"
      using False by (simp add: findMatchingRule_from_step)
    show ?thesis
    proof (cases "i < k")
      case True
      then obtain d where d: "k - i = Suc d" "k - Suc i = d"
        by (cases "k - i") auto
      have "(\<forall>j < Suc d. \<not> satisfiedAt L (rule # rest) r j) \<longleftrightarrow>
            (\<forall>j < d. \<not> satisfiedAt L rest (afterRule L rule r) j)"
        using False by (auto simp: less_Suc_eq_0_disj satisfiedAt_0 satisfiedAt_Suc)
      with True d show ?thesis
        unfolding step Cons.IH by (auto simp: satisfiedAt_Suc)
    next
      case nlt: False
      then have "k - i = 0" by simp
      with nlt False show ?thesis
        unfolding step Cons.IH by (auto simp: satisfiedAt_0)
    qed
  qed
qed

lemma findMatchingRule_from_None:
  "fst (findMatchingRule_from L i rules r) = None \<longleftrightarrow> (\<forall>j. \<not> satisfiedAt L rules r j)"
proof (induction rules arbitrary: i r)
  case Nil
  then show ?case by (simp add: satisfiedAt_Nil)
next
  case (Cons rule rest)
  show ?case
  proof (cases "ruleMatches L rule r")
    case True
    then show ?thesis
      using satisfiedAt_0 [of L rule rest r] by (auto simp: findMatchingRule_from_step)
  next
    case False
    have "(\<forall>j. \<not> satisfiedAt L (rule # rest) r j) \<longleftrightarrow>
          (\<forall>j. \<not> satisfiedAt L rest (afterRule L rule r) j)"
    proof
      assume a: "\<forall>j. \<not> satisfiedAt L (rule # rest) r j"
      show "\<forall>j. \<not> satisfiedAt L rest (afterRule L rule r) j"
      proof
        fix j
        from a have "\<not> satisfiedAt L (rule # rest) r (Suc j)" by blast
        then show "\<not> satisfiedAt L rest (afterRule L rule r) j" by (simp add: satisfiedAt_Suc)
      qed
    next
      assume a: "\<forall>j. \<not> satisfiedAt L rest (afterRule L rule r) j"
      show "\<forall>j. \<not> satisfiedAt L (rule # rest) r j"
      proof
        fix j
        show "\<not> satisfiedAt L (rule # rest) r j"
          using a False by (cases j) (simp_all add: satisfiedAt_0 satisfiedAt_Suc)
      qed
    qed
    with False show ?thesis
      by (simp add: findMatchingRule_from_step Cons.IH)
  qed
qed

lemma findMatchingRule_Some:
  "fst (findMatchingRule L h r) = Some k \<longleftrightarrow>
     satisfiedAt L (Requests (config h)) r k \<and>
     (\<forall>j < k. \<not> satisfiedAt L (Requests (config h)) r j)"
  by (simp add: findMatchingRule_def findMatchingRule_from_Some)

lemma findMatchingRule_None:
  "fst (findMatchingRule L h r) = None \<longleftrightarrow> (\<forall>j. \<not> satisfiedAt L (Requests (config h)) r j)"
  by (simp add: findMatchingRule_def findMatchingRule_from_None)

lemma findMatchingRule_from_readable:
  "req_Body r = Reader s \<Longrightarrow> snd (findMatchingRule_from L i rules r) = r"
proof (induction rules arbitrary: i)
  case Nil
  then show ?case by simp
next
  case (Cons rule rest)
  then show ?case
    by (simp add: findMatchingRule_from_step matchesBody_readable afterRule_readable)
qed

lemma same_fields: "\<exists>b. r = r\<lparr>req_Body := b\<rparr>"
  by (rule exI [of _ "req_Body r"]) simp

lemma matchesBody_fields:
  "\<exists>b. snd (matchesBody L p r) = r\<lparr>req_Body := b\<rparr>"
proof (cases "p = []")
  case True
  then show ?thesis by (simp add: matchesBody_def same_fields)
next
  case False
  then show ?thesis
    by (cases "ReadAll (req_Body r)")
       (auto simp: matchesBody_def Let_def split: option.splits)
qed

lemma afterRule_fields: "\<exists>b. afterRule L rule r = r\<lparr>req_Body := b\<rparr>"
proof (cases "afterRule L rule r = r")
  case True
  then show ?thesis using same_fields [of r] by simp
next
  case False
  then have "afterRule L rule r = snd (matchesBody L (Body rule) r)"
    by (simp add: afterRule_def split: if_splits)
  then show ?thesis using matchesBody_fields [of L "Body rule" r] by simp
qed

lemma findMatchingRule_from_fields:
  "\<exists>b. snd (findMatchingRule_from L i rules r) = r\<lparr>req_Body := b\<rparr>"
proof (induction rules arbitrary: i r)
  case Nil
  show ?case by (simp add: same_fields)
next
  case (Cons rule rest)
  show ?case
  proof (cases "ruleMatches L rule r")
    case True
    then show ?thesis
      using matchesBody_fields [of L "Body rule" r] by (simp add: findMatchingRule_from_step)
  next
    case False
    obtain b where b: "afterRule L rule r = r\<lparr>req_Body := b\<rparr>"
      using afterRule_fields by blast
    obtain b' where "snd (findMatchingRule_from L (Suc i) rest (r\<lparr>req_Body := b\<rparr>)) =
        r\<lparr>req_Body := b\<rparr>\<lparr>req_Body := b'\<rparr>"
      using Cons.IH by blast
    with False b show ?thesis
      by (auto simp: findMatchingRule_from_step)
  qed
qed

lemma findMatchingRule_Context_Done:
  "Context_Done (snd (findMatchingRule L h r)) = Context_Done r"
proof -
  obtain b where "snd (findMatchingRule L h r) = r\<lparr>req_Body := b\<rparr>"
    using findMatchingRule_from_fields [of L 0 "Requests (config h)" r]
    by (auto simp: findMatchingRule_def)
  then show ?thesis by simp
qed

text \<open>
  The index returned is an index of the rule list, and the rule there has the request's
  path, byte for byte, and its upper-cased method.
\<close>

lemma findMatchingRule_index:
  "fst (findMatchingRule L h r) = Some k \<Longrightarrow> k < length (Requests (config h))"
  by (simp add: findMatchingRule_Some satisfiedAt_def)

lemma afterRule_URL_Path: "URL_Path (afterRule L rule r) = URL_Path r"
  using afterRule_fields [of L rule r] by auto

lemma requestAt_fields: "\<exists>b. requestAt L rules r i = r\<lparr>req_Body := b\<rparr>"
proof (induction rules arbitrary: r i)
  case Nil
  show ?case by (simp add: requestAt_def same_fields)
next
  case (Cons rule rest)
  show ?case
  proof (cases i)
    case 0
    then show ?thesis by (simp add: requestAt_0 same_fields)
  next
    case (Suc j)
    obtain b where b: "afterRule L rule r = r\<lparr>req_Body := b\<rparr>"
      using afterRule_fields by blast
    obtain b' where "requestAt L rest (r\<lparr>req_Body := b\<rparr>) j = r\<lparr>req_Body := b\<rparr>\<lparr>req_Body := b'\<rparr>"
      using Cons.IH by blast
    with Suc b show ?thesis by (auto simp: requestAt_Suc)
  qed
qed

lemma selected_rule_path_and_method:
  assumes "fst (findMatchingRule L h r) = Some k"
  shows "Path (Requests (config h) ! k) = URL_Path r \<and>
         Method (Requests (config h) ! k) = strings_ToUpper L (req_Method r)"
proof -
  obtain b where b: "requestAt L (Requests (config h)) r k = r\<lparr>req_Body := b\<rparr>"
    using requestAt_fields by blast
  from assms have "ruleMatches L (Requests (config h) ! k) (requestAt L (Requests (config h)) r k)"
    by (simp add: findMatchingRule_Some satisfiedAt_def)
  then show ?thesis by (simp add: b ruleMatches_def methodMatches_def)
qed

text \<open>A rule without header, query and body patterns is decided by path and method.\<close>

lemma unconditional_rule:
  assumes "Headers rule = []" and "QueryParams rule = []" and "Body rule = []"
  shows "ruleMatches L rule r \<longleftrightarrow>
           Path rule = URL_Path r \<and> Method rule = strings_ToUpper L (req_Method r)"
  using assms by (simp add: ruleMatches_def methodMatches_def matchesBody_def)

section \<open>The dispatcher when no rule matches\<close>

lemma ServeHTTP_no_match:
  "fst (findMatchingRule L h r) = None \<Longrightarrow>
   ServeHTTP L h w r =
     Inr \<lparr>handler_after = h, writer_after = http_NotFound w,
          request_after = snd (findMatchingRule L h r), waited = None, aborted = False\<rparr>"
  by (cases "findMatchingRule L h r") (simp add: ServeHTTP_def)

lemma status_of_NotFound: "status_of (http_NotFound []) = Some 404"
  by (simp add: http_NotFound_def http_Error_def)

lemma body_of_NotFound: "body_of (http_NotFound []) = ''404 page not found\<newline>''"
  by (simp add: http_NotFound_def http_Error_def)

text \<open>
  C1 (as amended). For every request for which no configured rule satisfies all matching
  conditions, the dispatcher answers with the standard library's not-found response:
  status 404 and the plain-text body \<open>404 page not found\<close> followed by a newline.
  (The claim said: an empty body.)
\<close>

theorem C1_no_match_gives_not_found:
  assumes "\<forall>j. \<not> satisfiedAt L (Requests (config h)) r j"
  shows "written (ServeHTTP L h w r) = Some (http_NotFound w) \<and>
         map_option status_of (written (ServeHTTP L h [] r)) = Some (Some 404) \<and>
         map_option body_of (written (ServeHTTP L h [] r)) = Some ''404 page not found\<newline>''"
proof -
  from assms have none: "fst (findMatchingRule L h r) = None"
    by (simp add: findMatchingRule_None)
  show ?thesis
    by (simp add: ServeHTTP_no_match [OF none] written_def returned_def
        status_of_NotFound body_of_NotFound)
qed

lemma not_found_unsat:
  "\<forall>j. \<not> satisfiedAt go_stdlib (Requests (config (handlerOf [rule_NotFound])))
         (NewRequest ''GET'' ''/not-exists'' [(''Content-Type'', ''text/plain'')] [] []) j"
proof -
  have "fst (findMatchingRule go_stdlib (handlerOf [rule_NotFound])
          (NewRequest ''GET'' ''/not-exists'' [(''Content-Type'', ''text/plain'')] [] [])) = None"
    by code_simp
  then show ?thesis by (simp add: findMatchingRule_None)
qed

theorem C1_no_match_gives_not_found_witness:
  "(\<forall>j. \<not> satisfiedAt go_stdlib (Requests (config (handlerOf [rule_NotFound])))
         (NewRequest ''GET'' ''/not-exists'' [(''Content-Type'', ''text/plain'')] [] []) j) \<and>
   map_option status_of (written (ServeHTTP go_stdlib (handlerOf [rule_NotFound]) []
     (NewRequest ''GET'' ''/not-exists'' [(''Content-Type'', ''text/plain'')] [] []))) = Some (Some 404) \<and>
   map_option body_of (written (ServeHTTP go_stdlib (handlerOf [rule_NotFound]) []
     (NewRequest ''GET'' ''/not-exists'' [(''Content-Type'', ''text/plain'')] [] [])))
     = Some ''404 page not found\<newline>''"
  using C1_no_match_gives_not_found [OF not_found_unsat, of "[]"] not_found_unsat by blast

text \<open>
  The claim as stated fails on the request of the test \<open>NotFound\<close>: no rule matches,
  the status is 404, and the body is not empty.
\<close>

theorem C1_not_found_body_counterexample:
  "length (Requests (config (handlerOf [rule_NotFound]))) = 1 \<and>
   Path (Requests (config (handlerOf [rule_NotFound])) ! 0) \<noteq> ''/not-exists'' \<and>
   fst (findMatchingRule go_stdlib (handlerOf [rule_NotFound])
          (NewRequest ''GET'' ''/not-exists'' [(''Content-Type'', ''text/plain'')] [] [])) = None \<and>
   map_option status_of (written (ServeHTTP go_stdlib (handlerOf [rule_NotFound]) []
     (NewRequest ''GET'' ''/not-exists'' [(''Content-Type'', ''text/plain'')] [] []))) = Some (Some 404) \<and>
   map_option body_of (written (ServeHTTP go_stdlib (handlerOf [rule_NotFound]) []
     (NewRequest ''GET'' ''/not-exists'' [(''Content-Type'', ''text/plain'')] [] [])))
     = Some ''404 page not found\<newline>'' \<and>
   map_option body_of (written (ServeHTTP go_stdlib (handlerOf [rule_NotFound]) []
     (NewRequest ''GET'' ''/not-exists'' [(''Content-Type'', ''text/plain'')] [] []))) \<noteq> Some []"
  by code_simp

section \<open>First match wins\<close>

text \<open>
  C2. For every ordered rule list and every request that some rule of the list satisfies
  (so also when more than one does), the selector returns a satisfying rule that no
  satisfying rule precedes: the earliest in declaration order, never a later one.
\<close>

theorem C2_first_match_wins:
  assumes "satisfiedAt L (Requests (config h)) r i"
  shows "\<exists>k. fst (findMatchingRule L h r) = Some k \<and> k \<le> i \<and>
             satisfiedAt L (Requests (config h)) r k \<and>
             (\<forall>j < k. \<not> satisfiedAt L (Requests (config h)) r j)"
proof -
  define k where "k = (LEAST m. satisfiedAt L (Requests (config h)) r m)"
  have sat: "satisfiedAt L (Requests (config h)) r k"
    unfolding k_def using assms by (rule LeastI)
  have le: "k \<le> i"
    unfolding k_def using assms by (rule Least_le)
  have first: "\<forall>j < k. \<not> satisfiedAt L (Requests (config h)) r j"
    unfolding k_def using not_less_Least by blast
  from sat first have "fst (findMatchingRule L h r) = Some k"
    by (simp add: findMatchingRule_Some)
  with sat le first show ?thesis by blast
qed

lemma ping_sat1:
  "satisfiedAt go_stdlib (Requests (config (handlerOf rules_Ping))) (NewRequest ''GET'' ''/ping'' [] [] []) 1"
  by code_simp

lemma ping_sat2:
  "satisfiedAt go_stdlib (Requests (config (handlerOf rules_Ping))) (NewRequest ''GET'' ''/ping'' [] [] []) 2"
  by code_simp

lemma ping_unsat0:
  "\<not> satisfiedAt go_stdlib (Requests (config (handlerOf rules_Ping))) (NewRequest ''GET'' ''/ping'' [] [] []) 0"
  by code_simp

lemma ping_found:
  "fst (findMatchingRule go_stdlib (handlerOf rules_Ping) (NewRequest ''GET'' ''/ping'' [] [] [])) = Some 1"
  by code_simp

theorem C2_first_match_wins_witness:
  "satisfiedAt go_stdlib (Requests (config (handlerOf rules_Ping)))
     (NewRequest ''GET'' ''/ping'' [] [] []) 1 \<and>
   satisfiedAt go_stdlib (Requests (config (handlerOf rules_Ping)))
     (NewRequest ''GET'' ''/ping'' [] [] []) 2 \<and>
   fst (findMatchingRule go_stdlib (handlerOf rules_Ping) (NewRequest ''GET'' ''/ping'' [] [] []))
     = Some 1 \<and>
   (\<exists>k. fst (findMatchingRule go_stdlib (handlerOf rules_Ping)
              (NewRequest ''GET'' ''/ping'' [] [] [])) = Some k \<and> k \<le> 2 \<and>
        satisfiedAt go_stdlib (Requests (config (handlerOf rules_Ping)))
          (NewRequest ''GET'' ''/ping'' [] [] []) k \<and>
        (\<forall>j < k. \<not> satisfiedAt go_stdlib (Requests (config (handlerOf rules_Ping)))
          (NewRequest ''GET'' ''/ping'' [] [] []) j))"
  using C2_first_match_wins [OF ping_sat2] ping_sat1 ping_sat2 ping_found by blast


section \<open>Header and query patterns\<close>

lemma matchesHeaders_iff:
  "matchesHeaders L hs hdr \<longleftrightarrow> list_all (\<lambda>(n, p). patternMatches L p (Header_Get hdr n)) hs"
proof (induction L hs hdr rule: matchesHeaders.induct)
  case (1 L requestHeaders)
  show ?case by simp
next
  case (2 L headerName headerPattern rest requestHeaders)
  then show ?case
    by (cases "regexp_Compile L headerPattern") (simp_all add: Let_def patternMatches_def)
qed

lemma matchesQueryParams_iff:
  "matchesQueryParams L ps q \<longleftrightarrow> list_all (\<lambda>(n, p). patternMatches L p (Values_Get q n)) ps"
proof (induction L ps q rule: matchesQueryParams.induct)
  case (1 L requestParams)
  show ?case by simp
next
  case (2 L paramName paramPattern rest requestParams)
  then show ?case
    by (cases "regexp_Compile L paramPattern") (simp_all add: Let_def patternMatches_def)
qed

lemma list_all_removeAll:
  "x \<in> set xs \<Longrightarrow> list_all P xs \<longleftrightarrow> P x \<and> list_all P (removeAll x xs)"
  by (auto simp: list_all_iff)

text \<open>
  The verdict does not depend on the order in which the entries are visited (Go leaves
  the order of a map's entries open).
\<close>

lemma matchesHeaders_order:
  "set hs = set hs' \<Longrightarrow> matchesHeaders L hs hdr = matchesHeaders L hs' hdr"
  by (simp add: matchesHeaders_iff list_all_iff)

lemma matchesQueryParams_order:
  "set ps = set ps' \<Longrightarrow> matchesQueryParams L ps q = matchesQueryParams L ps' q"
  by (simp add: matchesQueryParams_iff list_all_iff)

text \<open>
  C3. For every rule whose header (or query-parameter) pattern map contains an entry whose
  pattern is not a valid regular expression (\<open>regexp.Compile\<close> fails on it), that
  entry matches exactly when the request's value is string-equal to the pattern text:
  the map matches if and only if that equality holds and the other entries match. The
  witness is the pattern \<open>[invalid(regex\<close>, which the engine refuses for its open
  bracket.
\<close>

theorem C3_invalid_pattern_exact_match:
  assumes "regexp_Compile L pat = None" and "(name, pat) \<in> set entries"
  shows "(matchesHeaders L entries hdr \<longleftrightarrow>
            Header_Get hdr name = pat \<and> matchesHeaders L (removeAll (name, pat) entries) hdr) \<and>
         (matchesQueryParams L entries q \<longleftrightarrow>
            Values_Get q name = pat \<and> matchesQueryParams L (removeAll (name, pat) entries) q)"
  using assms
  by (simp add: matchesHeaders_iff matchesQueryParams_iff patternMatches_def
      list_all_removeAll [of "(name, pat)" entries])

lemma Parse_invalid: "Parse ''[invalid(regex'' = Inl ErrMissingBracket"
  by code_simp

lemma Compile_invalid: "regexp_Compile go_stdlib ''[invalid(regex'' = None"
  by (simp add: go_stdlib_def Compile_def Parse_invalid)

theorem C3_invalid_pattern_exact_match_witness:
  "regexp_Compile go_stdlib ''[invalid(regex'' = None \<and>
   (\<forall>hdr. matchesHeaders go_stdlib [(''X-Pattern'', ''[invalid(regex'')] hdr \<longleftrightarrow>
            Header_Get hdr ''X-Pattern'' = ''[invalid(regex'') \<and>
   (\<forall>q. matchesQueryParams go_stdlib (QueryParams rule_InvalidRegex) q \<longleftrightarrow>
            Values_Get q ''pattern'' = ''[invalid(regex'')"
proof -
  have q: "QueryParams rule_InvalidRegex = [(''pattern'', ''[invalid(regex'')]"
    by (simp add: rule_InvalidRegex_def newRule_def)
  show ?thesis
    using C3_invalid_pattern_exact_match [OF Compile_invalid, of "''X-Pattern''" "[(''X-Pattern'', ''[invalid(regex'')]"]
      C3_invalid_pattern_exact_match [OF Compile_invalid, of "''pattern''" "[(''pattern'', ''[invalid(regex'')]"]
    by (simp add: Compile_invalid q)
qed

section \<open>Body patterns\<close>

text \<open>
  C4. For every rule whose body pattern is not empty and not a valid regular expression,
  the body predicate is not satisfied, whatever the request and its body: there is no
  fall-back to an exact comparison.
\<close>

theorem C4_invalid_body_pattern_never_matches:
  assumes "ruleBody \<noteq> []" and "regexp_Compile L ruleBody = None"
  shows "\<not> fst (matchesBody L ruleBody r)"
  using assms by (cases "req_Body r") (simp_all add: matchesBody_def Let_def)

theorem C4_invalid_body_pattern_never_matches_witness:
  "''[invalid(regex'' \<noteq> [] \<and> regexp_Compile go_stdlib ''[invalid(regex'' = None \<and>
   (\<forall>r. \<not> fst (matchesBody go_stdlib ''[invalid(regex'' r)) \<and>
   \<not> fst (matchesBody go_stdlib ''[invalid(regex''
            (NewRequest ''POST'' ''/x'' [] [] ''[invalid(regex''))"
  using C4_invalid_body_pattern_never_matches [OF _ Compile_invalid] Compile_invalid by simp

section \<open>The method condition\<close>

text \<open>What \<open>setDefaults\<close> does to a rule: the method is upper-cased, \<open>GET\<close> when unset.\<close>

lemma setDefaults_rule_fields:
  "Path (setDefaults_rule L rule) = Path rule"
  "Headers (setDefaults_rule L rule) = Headers rule"
  "QueryParams (setDefaults_rule L rule) = QueryParams rule"
  "Body (setDefaults_rule L rule) = Body rule"
  "ResponseDelay (setDefaults_rule L rule) = ResponseDelay rule"
  by (simp_all add: setDefaults_rule_def Let_def)

lemma Method_setDefaults_rule:
  "Method (setDefaults_rule L rule) =
     strings_ToUpper L (if Method rule = [] then ''GET'' else Method rule)"
  by (simp add: setDefaults_rule_def Let_def)

lemma Requests_setDefaults:
  "Requests (setDefaults L c) = map (setDefaults_rule L) (Requests c)"
  by (simp add: setDefaults_def Let_def)

lemma ruleMatches_setDefaults_rule:
  "ruleMatches L (setDefaults_rule L rule) (r\<lparr>req_Body := b\<rparr>) \<longleftrightarrow>
     strings_ToUpper L (if Method rule = [] then ''GET'' else Method rule) =
       strings_ToUpper L (req_Method r) \<and>
     Path rule = URL_Path r \<and>
     matchesHeaders L (Headers rule) (req_Header r) \<and>
     matchesQueryParams L (QueryParams rule) (URL_Query r) \<and>
     fst (matchesBody L (Body rule) (r\<lparr>req_Body := b\<rparr>))"
  by (auto simp add: ruleMatches_def methodMatches_def setDefaults_rule_fields
      Method_setDefaults_rule)

text \<open>
  C5 (as amended). For every configuration that has gone through \<open>setDefaults\<close>, every
  rule of it and every request: the selector's method condition on the rule holds if
  and only if the rule's method as configured (\<open>GET\<close> when unset) and the request's
  method are equal after both are converted to upper case; and the selector returns the
  rule if and only if this holds, the rule's path, header, query and body conditions
  hold, and no earlier rule satisfies all its conditions. (The rule's side of the
  conversion is \<open>setDefaults\<close>'s: the selector converts the request's method only.)
\<close>

theorem C5_method_case_insensitive:
  assumes "config h = setDefaults L c"
  shows "(fst (findMatchingRule L h r) = Some k \<longleftrightarrow>
            k < length (Requests c) \<and>
            strings_ToUpper L (if Method (Requests c ! k) = [] then ''GET'' else Method (Requests c ! k)) =
              strings_ToUpper L (req_Method r) \<and>
            Path (Requests c ! k) = URL_Path r \<and>
            matchesHeaders L (Headers (Requests c ! k)) (req_Header r) \<and>
            matchesQueryParams L (QueryParams (Requests c ! k)) (URL_Query r) \<and>
            fst (matchesBody L (Body (Requests c ! k)) (requestAt L (Requests (config h)) r k)) \<and>
            (\<forall>j<k. \<not> satisfiedAt L (Requests (config h)) r j)) \<and>
         (k < length (Requests c) \<longrightarrow>
            (methodMatches L (Requests (config h) ! k) r \<longleftrightarrow>
               strings_ToUpper L (if Method (Requests c ! k) = [] then ''GET'' else Method (Requests c ! k)) =
                 strings_ToUpper L (req_Method r)))"
proof -
  let ?rules = "Requests (config h)"
  have rules: "?rules = map (setDefaults_rule L) (Requests c)"
    by (simp add: assms Requests_setDefaults)
  obtain b where b: "requestAt L ?rules r k = r\<lparr>req_Body := b\<rparr>"
    using requestAt_fields by blast
  have "satisfiedAt L ?rules r k \<longleftrightarrow>
          k < length (Requests c) \<and>
          ruleMatches L (setDefaults_rule L (Requests c ! k)) (r\<lparr>req_Body := b\<rparr>)"
    using b by (auto simp: satisfiedAt_def rules)
  then have "satisfiedAt L ?rules r k \<longleftrightarrow>
          k < length (Requests c) \<and>
          strings_ToUpper L (if Method (Requests c ! k) = [] then ''GET'' else Method (Requests c ! k)) =
            strings_ToUpper L (req_Method r) \<and>
          Path (Requests c ! k) = URL_Path r \<and>
          matchesHeaders L (Headers (Requests c ! k)) (req_Header r) \<and>
          matchesQueryParams L (QueryParams (Requests c ! k)) (URL_Query r) \<and>
          fst (matchesBody L (Body (Requests c ! k)) (requestAt L ?rules r k))"
    by (simp only: ruleMatches_setDefaults_rule b)
  moreover have "fst (findMatchingRule L h r) = Some k \<longleftrightarrow>
      satisfiedAt L ?rules r k \<and> (\<forall>j<k. \<not> satisfiedAt L ?rules r j)"
    by (rule findMatchingRule_Some)
  moreover have "k < length (Requests c) \<longrightarrow>
            (methodMatches L (?rules ! k) r \<longleftrightarrow>
               strings_ToUpper L (if Method (Requests c ! k) = [] then ''GET'' else Method (Requests c ! k)) =
                 strings_ToUpper L (req_Method r))"
    by (simp add: rules methodMatches_def Method_setDefaults_rule)
  ultimately show ?thesis by blast
qed

lemma lowercase_loaded:
  "config (loadedHandlerOf [rule_lowercase]) = setDefaults go_stdlib (newConfig [rule_lowercase])"
  by (simp add: loadedHandlerOf_def NewMockHandlerWithRand_def)

lemma lowercase_Post:
  "0 < length (Requests (newConfig [rule_lowercase])) \<and>
   strings_ToUpper go_stdlib
     (if Method (Requests (newConfig [rule_lowercase]) ! 0) = [] then ''GET''
      else Method (Requests (newConfig [rule_lowercase]) ! 0)) =
     strings_ToUpper go_stdlib (req_Method (NewRequest ''Post'' ''/submit'' [] [] [])) \<and>
   Path (Requests (newConfig [rule_lowercase]) ! 0) =
     URL_Path (NewRequest ''Post'' ''/submit'' [] [] []) \<and>
   matchesHeaders go_stdlib (Headers (Requests (newConfig [rule_lowercase]) ! 0))
     (req_Header (NewRequest ''Post'' ''/submit'' [] [] [])) \<and>
   matchesQueryParams go_stdlib (QueryParams (Requests (newConfig [rule_lowercase]) ! 0))
     (URL_Query (NewRequest ''Post'' ''/submit'' [] [] [])) \<and>
   fst (matchesBody go_stdlib (Body (Requests (newConfig [rule_lowercase]) ! 0))
          (requestAt go_stdlib (Requests (config (loadedHandlerOf [rule_lowercase])))
             (NewRequest ''Post'' ''/submit'' [] [] []) 0))"
  by code_simp

lemma lowercase_GET:
  "strings_ToUpper go_stdlib
     (if Method (Requests (newConfig [rule_lowercase]) ! 0) = [] then ''GET''
      else Method (Requests (newConfig [rule_lowercase]) ! 0)) \<noteq>
     strings_ToUpper go_stdlib (req_Method (NewRequest ''GET'' ''/submit'' [] [] []))"
  by code_simp

lemma lowercase_spelled: "Method rule_lowercase = ''post''"
  by (simp add: rule_lowercase_def newRule_def)

theorem C5_method_case_insensitive_witness:
  "config (loadedHandlerOf [rule_lowercase]) = setDefaults go_stdlib (newConfig [rule_lowercase]) \<and>
   Method rule_lowercase = ''post'' \<and>
   fst (findMatchingRule go_stdlib (loadedHandlerOf [rule_lowercase])
          (NewRequest ''Post'' ''/submit'' [] [] [])) = Some 0 \<and>
   fst (findMatchingRule go_stdlib (loadedHandlerOf [rule_lowercase])
          (NewRequest ''GET'' ''/submit'' [] [] [])) \<noteq> Some 0 \<and>
   methodMatches go_stdlib (Requests (config (loadedHandlerOf [rule_lowercase])) ! 0)
     (NewRequest ''Post'' ''/submit'' [] [] []) \<and>
   \<not> methodMatches go_stdlib (Requests (config (loadedHandlerOf [rule_lowercase])) ! 0)
     (NewRequest ''GET'' ''/submit'' [] [] [])"
proof -
  note t = C5_method_case_insensitive [OF lowercase_loaded, where k = 0]
  note a = t [where r = "NewRequest ''Post'' ''/submit'' [] [] []"]
  note b = t [where r = "NewRequest ''GET'' ''/submit'' [] [] []"]
  show ?thesis
    using a b lowercase_loaded lowercase_Post lowercase_GET lowercase_spelled by simp
qed

text \<open>
  The claim as worded, for every rule: a rule handed to the handler as \<open>post\<close>, without
  \<open>setDefaults\<close>, has the request's method \<open>POST\<close> once both are upper-cased, the
  request's path, and no other condition; the selector's method condition fails and no
  rule is selected.
\<close>

theorem C5_unloaded_rule_counterexample:
  "strings_ToUpper go_stdlib (Method rule_lowercase) =
     strings_ToUpper go_stdlib (req_Method (NewRequest ''POST'' ''/submit'' [] [] [])) \<and>
   Path rule_lowercase = URL_Path (NewRequest ''POST'' ''/submit'' [] [] []) \<and>
   Headers rule_lowercase = [] \<and> QueryParams rule_lowercase = [] \<and> Body rule_lowercase = [] \<and>
   \<not> methodMatches go_stdlib rule_lowercase (NewRequest ''POST'' ''/submit'' [] [] []) \<and>
   fst (findMatchingRule go_stdlib (handlerOf [rule_lowercase])
          (NewRequest ''POST'' ''/submit'' [] [] [])) = None"
  by code_simp

section \<open>The delay calculator\<close>

text \<open>Signed 64-bit arithmetic that stays in range does not wrap.\<close>

lemma sint64_bounds: "- 9223372036854775808 \<le> sint (a :: 64 word)" "sint (a :: 64 word) \<le> 9223372036854775807"
  using sint_ge [of a] sint_lt [of a] by simp_all

lemma sint64_fits:
  "- 9223372036854775808 \<le> x \<Longrightarrow> x \<le> 9223372036854775807 \<Longrightarrow> sint (word_of_int x :: 64 word) = x"
  by (simp add: sint_sbintrunc' signed_take_bit_int_eq_self)

lemma sint64_add:
  "- 9223372036854775808 \<le> sint a + sint b \<Longrightarrow> sint a + sint b \<le> 9223372036854775807 \<Longrightarrow>
   sint (a + b :: 64 word) = sint a + sint b"
  by (simp add: sint_word_ariths signed_take_bit_int_eq_self)

lemma sint64_diff:
  "- 9223372036854775808 \<le> sint a - sint b \<Longrightarrow> sint a - sint b \<le> 9223372036854775807 \<Longrightarrow>
   sint (a - b :: 64 word) = sint a - sint b"
  by (simp add: sint_word_ariths signed_take_bit_int_eq_self)

lemma sint64_mult:
  "- 9223372036854775808 \<le> sint a * sint b \<Longrightarrow> sint a * sint b \<le> 9223372036854775807 \<Longrightarrow>
   sint (a * b :: 64 word) = sint a * sint b"
  by (simp add: sint_word_ariths signed_take_bit_int_eq_self)

lemma sint_Millisecond: "sint Millisecond = 1000000"
  by (simp add: Millisecond_def)

lemma sint64_ms:
  assumes "- 9223372036854 \<le> sint ms" "sint ms \<le> 9223372036854"
  shows "sint (ms * Millisecond) = sint ms * 1000000"
proof -
  have "- 9223372036854775808 \<le> sint ms * sint Millisecond"
       "sint ms * sint Millisecond \<le> 9223372036854775807"
    using assms by (simp_all add: sint_Millisecond)
  then show ?thesis
    using sint64_mult [of ms Millisecond] by (simp add: sint_Millisecond)
qed

lemma Milliseconds_ms:
  assumes "- 9223372036854 \<le> sint ms" "sint ms \<le> 9223372036854"
  shows "Milliseconds (ms * Millisecond) = sint ms"
proof -
  have "\<bar>sint ms * 1000000\<bar> div 1000000 = \<bar>sint ms\<bar>"
    by (simp add: abs_mult)
  moreover have "sgn (sint ms * 1000000) = sgn (sint ms)"
    by (simp add: sgn_mult)
  ultimately show ?thesis
    by (simp add: Milliseconds_def sint64_ms [OF assms] sgn_mult_abs)
qed


lemma Intn_ok:
  assumes "0 < sint n"
  shows "\<exists>k. Intn g n = Inr (k, g\<lparr>pos := Suc (pos g)\<rparr>) \<and> 0 \<le> sint k \<and> sint k < sint n"
proof -
  let ?x = "int (draws g (pos g)) mod sint n"
  have b: "0 \<le> ?x" "?x < sint n" using assms by simp_all
  have "?x \<le> 9223372036854775807" using b(2) sint64_bounds(2) [of n] by linarith
  then have "sint (word_of_int ?x :: 64 word) = ?x"
    using b(1) by (intro sint64_fits) simp_all
  with b assms show ?thesis by (simp add: Intn_def)
qed

lemma calculateDelay_fixed:
  "sint (DelayMax delay) \<le> sint (DelayMin delay) \<Longrightarrow>
   calculateDelay h delay = Inr (DelayMin delay * Millisecond, h)"
  by (simp add: calculateDelay_def)

lemma calculateDelay_range:
  assumes lt: "sint (DelayMin delay) < sint (DelayMax delay)"
    and span: "sint (DelayMax delay) - sint (DelayMin delay) < 9223372036854775807"
  shows "\<exists>k. calculateDelay h delay =
               Inr ((DelayMin delay + k) * Millisecond, h\<lparr>rand := (rand h)\<lparr>pos := Suc (pos (rand h))\<rparr>\<rparr>) \<and>
             sint (DelayMin delay + k) = sint (DelayMin delay) + sint k \<and>
             0 \<le> sint k \<and> sint k \<le> sint (DelayMax delay) - sint (DelayMin delay)"
proof -
  let ?mn = "DelayMin delay" and ?mx = "DelayMax delay"
  have d: "sint (?mx - ?mn) = sint ?mx - sint ?mn"
    using lt span by (intro sint64_diff) simp_all
  have n: "sint (?mx - ?mn + 1) = sint ?mx - sint ?mn + 1"
    using lt span d sint64_add [of "?mx - ?mn" 1] by simp
  then have "0 < sint (?mx - ?mn + 1)" using lt by simp
  from Intn_ok [OF this, of "rand h"] obtain k where
    k: "Intn (rand h) (?mx - ?mn + 1) = Inr (k, (rand h)\<lparr>pos := Suc (pos (rand h))\<rparr>)"
       "0 \<le> sint k" "sint k < sint (?mx - ?mn + 1)"
    by blast
  have kb: "sint k \<le> sint ?mx - sint ?mn" using k(3) n by simp
  have "sint (?mn + k) = sint ?mn + sint k"
    using k(2) kb sint64_bounds [of ?mn] sint64_bounds [of ?mx] by (intro sint64_add) linarith+
  moreover have "calculateDelay h delay =
      Inr ((?mn + k) * Millisecond, h\<lparr>rand := (rand h)\<lparr>pos := Suc (pos (rand h))\<rparr>\<rparr>)"
    using k(1) lt by (simp add: calculateDelay_def)
  ultimately show ?thesis using k(2) kb by blast
qed


lemma writeResponse_no_delay:
  "ResponseDelay rule = None \<Longrightarrow>
   \<exists>out. writeResponse L h w r rule = Inr out \<and> waited out = None \<and>
         handler_after out = h \<and> \<not> aborted out"
  by (simp add: writeResponse_def Let_def)

text \<open>
  The calculator on a pair in order whose maximum a \<open>time.Duration\<close> can hold.
\<close>

lemma calculateDelay_within:
  assumes "0 \<le> sint (DelayMin delay)" and "sint (DelayMin delay) \<le> sint (DelayMax delay)"
    and "sint (DelayMax delay) \<le> 9223372036854"
  shows "\<exists>d h'. calculateDelay h delay = Inr (d, h') \<and>
          sint d = Milliseconds d * 1000000 \<and>
          sint (DelayMin delay) \<le> Milliseconds d \<and> Milliseconds d \<le> sint (DelayMax delay) \<and>
          (DelayMin delay = DelayMax delay \<longrightarrow> Milliseconds d = sint (DelayMin delay) \<and> h' = h)"
proof (cases "sint (DelayMin delay) < sint (DelayMax delay)")
  let ?mn = "DelayMin delay" and ?mx = "DelayMax delay"
  case True
  have "sint ?mx - sint ?mn < 9223372036854775807" using assms by linarith
  from calculateDelay_range [OF True this, of h] obtain k where
    k: "calculateDelay h delay =
          Inr ((?mn + k) * Millisecond, h\<lparr>rand := (rand h)\<lparr>pos := Suc (pos (rand h))\<rparr>\<rparr>)"
       "sint (?mn + k) = sint ?mn + sint k" "0 \<le> sint k" "sint k \<le> sint ?mx - sint ?mn"
    by blast
  have b: "- 9223372036854 \<le> sint (?mn + k)" "sint (?mn + k) \<le> 9223372036854"
    using assms k by linarith+
  have ne: "?mn \<noteq> ?mx" using True by auto
  show ?thesis
    using k assms ne by (simp add: Milliseconds_ms [OF b] sint64_ms [OF b])
next
  let ?mn = "DelayMin delay" and ?mx = "DelayMax delay"
  case False
  then have le: "sint ?mx \<le> sint ?mn" by simp
  have b: "- 9223372036854 \<le> sint ?mn" "sint ?mn \<le> 9223372036854"
    using assms le by linarith+
  have eq: "sint ?mn = sint ?mx" using assms le by linarith
  have m: "Milliseconds (?mn * Millisecond) = sint ?mn"
    by (rule Milliseconds_ms [OF b])
  have s: "sint (?mn * Millisecond) = Milliseconds (?mn * Millisecond) * 1000000"
    by (simp add: m sint64_ms [OF b])
  have "calculateDelay h delay = Inr (?mn * Millisecond, h) \<and>
        sint (?mn * Millisecond) = Milliseconds (?mn * Millisecond) * 1000000 \<and>
        sint ?mn \<le> Milliseconds (?mn * Millisecond) \<and>
        Milliseconds (?mn * Millisecond) \<le> sint ?mx \<and>
        (?mn = ?mx \<longrightarrow> Milliseconds (?mn * Millisecond) = sint ?mn \<and> h = h)"
    using calculateDelay_fixed [OF le, of h] s m eq by (simp only: simp_thms order_refl)
  then show ?thesis by blast
qed

text \<open>
  What \<open>validate\<close> admits as a delay, and the calculator on the delays of a
  configuration that \<open>validate\<close> accepts.
\<close>

lemma validated_delay_in_range:
  assumes "validate_delay i delay = None"
  shows "0 \<le> sint (DelayMin delay) \<and> sint (DelayMin delay) \<le> sint (DelayMax delay) \<and>
         sint (DelayMax delay) \<le> 10000"
  using assms by (simp add: validate_delay_def MaxResponseDelayMs_def split: if_splits)

lemma validate_rules_delay:
  "validate_rules i rules = None \<Longrightarrow> rule \<in> set rules \<Longrightarrow> ResponseDelay rule = Some delay \<Longrightarrow>
   \<exists>j. validate_delay j delay = None"
proof (induction rules arbitrary: i)
  case Nil
  then show ?case by simp
next
  case (Cons x rest)
  from Cons.prems(1) have x: "validate_rule i x = None" and rest: "validate_rules (Suc i) rest = None"
    by (simp_all split: option.splits)
  show ?case
  proof (cases "rule = x")
    case True
    with x Cons.prems(3) have "validate_delay i delay = None"
      by (simp add: validate_rule_def split: if_splits)
    then show ?thesis by blast
  next
    case False
    with Cons.prems(2) have "rule \<in> set rest" by simp
    from Cons.IH [OF rest this Cons.prems(3)] show ?thesis .
  qed
qed

lemma validated_config_delay:
  assumes "validate c = None" and "rule \<in> set (Requests c)" and "ResponseDelay rule = Some delay"
  shows "0 \<le> sint (DelayMin delay) \<and> sint (DelayMin delay) \<le> sint (DelayMax delay) \<and>
         sint (DelayMax delay) \<le> 10000"
proof -
  from assms(1) have "validate_rules 0 (Requests c) = None"
    by (simp add: validate_def split: if_splits)
  from validate_rules_delay [OF this assms(2,3)] obtain j where "validate_delay j delay = None"
    by blast
  then show ?thesis by (rule validated_delay_in_range)
qed

lemma loaded_delay_within:
  assumes "validate c = None" and "rule \<in> set (Requests c)" and "ResponseDelay rule = Some delay"
  shows "\<exists>d h'. calculateDelay h delay = Inr (d, h') \<and>
          sint (DelayMin delay) \<le> Milliseconds d \<and> Milliseconds d \<le> sint (DelayMax delay) \<and>
          Milliseconds d \<le> 10000"
proof -
  from validated_config_delay [OF assms] have v:
    "0 \<le> sint (DelayMin delay)" "sint (DelayMin delay) \<le> sint (DelayMax delay)"
    "sint (DelayMax delay) \<le> 10000"
    by simp_all
  then have "sint (DelayMax delay) \<le> 9223372036854" by simp
  from calculateDelay_within [OF v(1,2) this, of h] obtain d h' where
    "calculateDelay h delay = Inr (d, h')" "sint (DelayMin delay) \<le> Milliseconds d"
    "Milliseconds d \<le> sint (DelayMax delay)"
    by blast
  with v(3) show ?thesis by fastforce
qed


text \<open>
  C6 (as amended). For every delay configuration with \<open>0 \<le> min \<le> max\<close> and
  \<open>max \<le> 9223372036854\<close> milliseconds (the longest a \<open>time.Duration\<close> holds; what
  \<open>validate\<close> admits, \<open>max \<le> 10000\<close>, is far inside): the calculator returns a
  whole number of milliseconds in \<open>[min, max]\<close>; when \<open>min = max\<close> it is exactly
  \<open>min\<close> and the random source is left as it was. And when a rule has no
  \<open>responseDelay\<close>, \<open>writeResponse\<close> waits for nothing and leaves the handler's
  random source untouched: the calculator is not called. (The claim had no upper bound.)
\<close>

theorem C6_delay_within_range:
  "(0 \<le> sint (DelayMin delay) \<and> sint (DelayMin delay) \<le> sint (DelayMax delay) \<and>
    sint (DelayMax delay) \<le> 9223372036854 \<longrightarrow>
      (\<exists>d h'. calculateDelay h delay = Inr (d, h') \<and>
          sint d = Milliseconds d * 1000000 \<and>
          sint (DelayMin delay) \<le> Milliseconds d \<and> Milliseconds d \<le> sint (DelayMax delay) \<and>
          (DelayMin delay = DelayMax delay \<longrightarrow> Milliseconds d = sint (DelayMin delay) \<and> h' = h))) \<and>
   (ResponseDelay rule = None \<longrightarrow>
      (\<exists>out. writeResponse L h w r rule = Inr out \<and> waited out = None \<and>
          handler_after out = h \<and> \<not> aborted out))"
  using calculateDelay_within [of delay h] writeResponse_no_delay [of rule L h w r] by blast

lemma fixed_delay_result:
  "calculateDelay (handlerOf [rule_DelayFixed, rule_ExactMatch]) \<lparr>DelayMin = 100, DelayMax = 100\<rparr> =
     Inr (100000000, handlerOf [rule_DelayFixed, rule_ExactMatch])"
  by (simp add: calculateDelay_def Millisecond_def)

lemma range_delay_result:
  "calculateDelay (handlerOf [rule_DelayRange]) \<lparr>DelayMin = 50, DelayMax = 150\<rparr> =
     Inr (92000000, (handlerOf [rule_DelayRange])\<lparr>rand := seeded\<lparr>pos := 1\<rparr>\<rparr>)"
  by (simp add: calculateDelay_def Intn_def Millisecond_def handlerOf_def
      NewMockHandlerWithRand_def seeded_def)

theorem C6_delay_within_range_witness:
  "0 \<le> sint (DelayMin \<lparr>DelayMin = 100, DelayMax = 100\<rparr>) \<and>
   sint (DelayMin \<lparr>DelayMin = 100, DelayMax = 100\<rparr>) \<le> sint (DelayMax \<lparr>DelayMin = 100, DelayMax = 100\<rparr>) \<and>
   sint (DelayMax \<lparr>DelayMin = 100, DelayMax = 100\<rparr>) \<le> 9223372036854 \<and>
   calculateDelay (handlerOf [rule_DelayFixed, rule_ExactMatch]) \<lparr>DelayMin = 100, DelayMax = 100\<rparr> =
     Inr (100000000, handlerOf [rule_DelayFixed, rule_ExactMatch]) \<and>
   Milliseconds 100000000 = 100 \<and>
   0 \<le> sint (DelayMin \<lparr>DelayMin = 50, DelayMax = 150\<rparr>) \<and>
   sint (DelayMin \<lparr>DelayMin = 50, DelayMax = 150\<rparr>) \<le> sint (DelayMax \<lparr>DelayMin = 50, DelayMax = 150\<rparr>) \<and>
   sint (DelayMax \<lparr>DelayMin = 50, DelayMax = 150\<rparr>) \<le> 9223372036854 \<and>
   calculateDelay (handlerOf [rule_DelayRange]) \<lparr>DelayMin = 50, DelayMax = 150\<rparr> =
     Inr (92000000, (handlerOf [rule_DelayRange])\<lparr>rand := seeded\<lparr>pos := 1\<rparr>\<rparr>) \<and>
   50 \<le> Milliseconds 92000000 \<and> Milliseconds 92000000 \<le> 150 \<and>
   ResponseDelay rule_ExactMatch = None \<and>
   (\<exists>out. writeResponse go_stdlib (handlerOf [rule_DelayFixed, rule_ExactMatch]) []
            (NewRequest ''GET'' ''/foo'' [] [] []) rule_ExactMatch = Inr out \<and>
          waited out = None \<and>
          handler_after out = handlerOf [rule_DelayFixed, rule_ExactMatch] \<and> \<not> aborted out)"
proof -
  have nd: "ResponseDelay rule_ExactMatch = None"
    by (simp add: rule_ExactMatch_def newRule_def)
  note t = C6_delay_within_range [where delay = "\<lparr>DelayMin = 100, DelayMax = 100\<rparr>"
        and h = "handlerOf [rule_DelayFixed, rule_ExactMatch]"
        and rule = rule_ExactMatch and L = go_stdlib and w = "[]"
        and r = "NewRequest ''GET'' ''/foo'' [] [] []"]
  note u = C6_delay_within_range [where delay = "\<lparr>DelayMin = 50, DelayMax = 150\<rparr>"
        and h = "handlerOf [rule_DelayRange]"
        and rule = rule_ExactMatch and L = go_stdlib and w = "[]"
        and r = "NewRequest ''GET'' ''/foo'' [] [] []"]
  show ?thesis
    using t u nd by (simp add: fixed_delay_result range_delay_result)
qed

text \<open>
  The claim as stated fails for a delay of 9223372036855 ms, \<open>min = max\<close>: the product
  with \<open>time.Millisecond\<close> wraps around and the duration returned is negative. It
  fails as well for the pair \<open>{0, 9223372036854775807}\<close>, where no duration is
  returned: \<open>rand.Intn\<close> panics.
\<close>

theorem C6_delay_too_long_counterexample:
  "0 \<le> sint (DelayMin delay_TooLong) \<and>
   sint (DelayMin delay_TooLong) \<le> sint (DelayMax delay_TooLong) \<and>
   DelayMin delay_TooLong = DelayMax delay_TooLong \<and>
   sint (DelayMin delay_TooLong) = 9223372036855 \<and>
   calculateDelay (handlerOf []) delay_TooLong =
     Inr (DelayMin delay_TooLong * Millisecond, handlerOf []) \<and>
   sint (DelayMin delay_TooLong * Millisecond) = - 9223372036854551616 \<and>
   Milliseconds (DelayMin delay_TooLong * Millisecond) = - 9223372036854 \<and>
   0 \<le> sint (DelayMin delay_Widest) \<and>
   sint (DelayMin delay_Widest) \<le> sint (DelayMax delay_Widest) \<and>
   calculateDelay (handlerOf []) delay_Widest = Inl (Panic ''invalid argument to Intn'')"
  by (simp add: delay_TooLong_def delay_Widest_def calculateDelay_def Intn_def Millisecond_def
      Milliseconds_def)

section \<open>The response synthesizer\<close>

lemma body_of_append: "body_of (w @ w') = body_of w @ body_of w'"
  by (induction w rule: body_of.induct) simp_all

lemma writes_of_append: "writes_of (w @ w') = writes_of w @ writes_of w'"
  by (induction w rule: writes_of.induct) simp_all

lemma body_of_Header_Sets: "body_of (map (\<lambda>(key, val). Header_Set key val) hs) = []"
  by (induction hs) auto

lemma writes_of_Header_Sets: "writes_of (map (\<lambda>(key, val). Header_Set key val) hs) = []"
  by (induction hs) auto

lemma writes_of_setHeaders: "writes_of (setHeaders w hs) = writes_of w"
  by (simp add: setHeaders_def writes_of_append writes_of_Header_Sets)

text \<open>
  When the response is sent: exactly when the wait runs to its end. A configuration
  that \<open>validate\<close> admits and a request whose context is never done are such a case.
\<close>

lemma writeResponse_sends_iff:
  "(\<exists>out. writeResponse L h w r rule = Inr out \<and> \<not> aborted out) \<longleftrightarrow> waitCompletes h r rule"
  by (auto simp: waitCompletes_def writeResponse_def Let_def
      split: option.splits sum.splits prod.splits)

lemma writeResponse_completes:
  assumes "waitCompletes h r rule"
  shows "\<exists>out. writeResponse L h w r rule = Inr out \<and> \<not> aborted out \<and> request_after out = r \<and>
           writer_after out =
             (let w2 = setHeaders w (RespHeaders (Response rule)) @
                       [WriteHeader (StatusCode (Response rule))]
              in if RespBody (Response rule) = NilBody then w2
                 else fst (writeBody L w2 (RespBody (Response rule))))"
  using assms
  by (auto simp: waitCompletes_def writeResponse_def Let_def
      split: option.splits sum.splits prod.splits)

lemma waitCompletes_no_delay: "ResponseDelay rule = None \<Longrightarrow> waitCompletes h r rule"
  by (simp add: waitCompletes_def)

lemma waitCompletes_loaded:
  assumes "validate c = None" and "rule \<in> set (Requests c)" and "\<forall>d. \<not> Context_Done r d"
  shows "waitCompletes h r rule"
proof (cases "ResponseDelay rule")
  case None
  then show ?thesis by (rule waitCompletes_no_delay)
next
  case (Some delay)
  from loaded_delay_within [OF assms(1,2) Some, of h] obtain d h' where
    "calculateDelay h delay = Inr (d, h')" by blast
  with Some assms(3) show ?thesis by (simp add: waitCompletes_def)
qed

text \<open>
  C7. For every rule's response specification, whenever the wait runs to its end (the
  rule has no delay, or the calculator returns and the request's context is not done
  before the delay has passed), \<open>writeResponse\<close> returns, and what it has written after
  the headers and the status is: for a string body, one write of its bytes, nothing
  added; for a body that is neither a string nor \<open>nil\<close>, one write of its JSON
  serialization (nothing when the value has none: \<open>json.Marshal\<close> fails); for an absent
  body, nothing.
\<close>

theorem C7_body_written:
  assumes "waitCompletes h r rule"
  shows "\<exists>out. writeResponse L h w r rule = Inr out \<and> \<not> aborted out \<and>
           (RespBody (Response rule) = StringBody s \<longrightarrow>
              writer_after out =
                setHeaders w (RespHeaders (Response rule)) @
                [WriteHeader (StatusCode (Response rule)), Write s] \<and>
              writes_of (writer_after out) = writes_of w @ [s]) \<and>
           (RespBody (Response rule) = OtherBody v \<and> json_Marshal L v = Some data \<longrightarrow>
              writer_after out =
                setHeaders w (RespHeaders (Response rule)) @
                [WriteHeader (StatusCode (Response rule)), Write data] \<and>
              writes_of (writer_after out) = writes_of w @ [data]) \<and>
           (RespBody (Response rule) = OtherBody v \<and> json_Marshal L v = None \<longrightarrow>
              writer_after out =
                setHeaders w (RespHeaders (Response rule)) @
                [WriteHeader (StatusCode (Response rule))] \<and>
              writes_of (writer_after out) = writes_of w) \<and>
           (RespBody (Response rule) = NilBody \<longrightarrow>
              writer_after out =
                setHeaders w (RespHeaders (Response rule)) @
                [WriteHeader (StatusCode (Response rule))] \<and>
              writes_of (writer_after out) = writes_of w)"
proof -
  from writeResponse_completes [OF assms, of L w] obtain out where
    out: "writeResponse L h w r rule = Inr out" "\<not> aborted out"
      "writer_after out =
             (let w2 = setHeaders w (RespHeaders (Response rule)) @
                       [WriteHeader (StatusCode (Response rule))]
              in if RespBody (Response rule) = NilBody then w2
                 else fst (writeBody L w2 (RespBody (Response rule))))"
    by blast
  show ?thesis
    by (rule exI [of _ out])
      (simp add: out Let_def writeBody_def writes_of_append writes_of_setHeaders)
qed

lemma Marshal_message_ok:
  "json_Marshal go_stdlib (JObject [(''message'', JString ''ok'')]) = Some json_message_ok"
  by code_simp

lemma headers_completes:
  "waitCompletes (handlerOf [rule_ResponseHeaders])
     (NewRequest ''GET'' ''/headers'' [(''Content-Type'', ''text/plain'')] [] [])
     rule_ResponseHeaders"
  by (simp add: waitCompletes_def rule_ResponseHeaders_def newRule_def)

lemma exact_completes:
  "waitCompletes (handlerOf [rule_ExactMatch])
     (NewRequest ''GET'' ''/foo'' [(''Content-Type'', ''application/json'')] [] [])
     rule_ExactMatch"
  by (simp add: waitCompletes_def rule_ExactMatch_def newRule_def)

lemma wildcard_completes:
  "waitCompletes (handlerOf [rule_WildcardAny])
     (NewRequest ''POST'' ''/bar'' [(''Content-Type'', ''text/plain'')] [] ''hello'')
     rule_WildcardAny"
  by (simp add: waitCompletes_def rule_WildcardAny_def newRule_def)

lemma delayed_completes:
  "waitCompletes (handlerOf [rule_DelayFixed]) (NewRequest ''GET'' ''/delayed'' [] [] [])
     rule_DelayFixed"
  by (simp add: waitCompletes_def rule_DelayFixed_def newRule_def calculateDelay_def
      NewRequest_def)

lemma range_completes:
  "waitCompletes (handlerOf [rule_DelayRange]) (NewRequest ''GET'' ''/delayed-range'' [] [] [])
     rule_DelayRange"
  by (simp add: waitCompletes_def rule_DelayRange_def newRule_def calculateDelay_def
      NewRequest_def Intn_def split: sum.splits)

theorem C7_body_written_witness:
  "(waitCompletes (handlerOf [rule_ResponseHeaders])
      (NewRequest ''GET'' ''/headers'' [(''Content-Type'', ''text/plain'')] [] [])
      rule_ResponseHeaders \<and>
    (\<exists>out. writeResponse go_stdlib (handlerOf [rule_ResponseHeaders]) []
             (NewRequest ''GET'' ''/headers'' [(''Content-Type'', ''text/plain'')] [] [])
             rule_ResponseHeaders = Inr out \<and> \<not> aborted out \<and>
           writer_after out = [Header_Set ''X-Test'' ''yes'', WriteHeader 200, Write ''ok''] \<and>
           writes_of (writer_after out) = [''ok''])) \<and>
   (waitCompletes (handlerOf [rule_ExactMatch])
      (NewRequest ''GET'' ''/foo'' [(''Content-Type'', ''application/json'')] [] [])
      rule_ExactMatch \<and>
    (\<exists>out. writeResponse go_stdlib (handlerOf [rule_ExactMatch]) []
             (NewRequest ''GET'' ''/foo'' [(''Content-Type'', ''application/json'')] [] [])
             rule_ExactMatch = Inr out \<and> \<not> aborted out \<and>
           writer_after out = [WriteHeader 200, Write json_message_ok] \<and>
           writes_of (writer_after out) = [json_message_ok])) \<and>
   (waitCompletes (handlerOf [rule_WildcardAny])
      (NewRequest ''POST'' ''/bar'' [(''Content-Type'', ''text/plain'')] [] ''hello'')
      rule_WildcardAny \<and>
    (\<exists>out. writeResponse go_stdlib (handlerOf [rule_WildcardAny]) []
             (NewRequest ''POST'' ''/bar'' [(''Content-Type'', ''text/plain'')] [] ''hello'')
             rule_WildcardAny = Inr out \<and> \<not> aborted out \<and>
           writer_after out = [WriteHeader 201] \<and>
           writes_of (writer_after out) = [])) \<and>
   (ResponseDelay rule_DelayFixed = Some \<lparr>DelayMin = 100, DelayMax = 100\<rparr> \<and>
    waitCompletes (handlerOf [rule_DelayFixed]) (NewRequest ''GET'' ''/delayed'' [] [] [])
      rule_DelayFixed \<and>
    (\<exists>out. writeResponse go_stdlib (handlerOf [rule_DelayFixed]) []
             (NewRequest ''GET'' ''/delayed'' [] [] []) rule_DelayFixed = Inr out \<and>
           \<not> aborted out \<and>
           writer_after out = [WriteHeader 200, Write ''delayed response''] \<and>
           writes_of (writer_after out) = [''delayed response''])) \<and>
   (ResponseDelay rule_DelayRange = Some \<lparr>DelayMin = 50, DelayMax = 150\<rparr> \<and>
    waitCompletes (handlerOf [rule_DelayRange]) (NewRequest ''GET'' ''/delayed-range'' [] [] [])
      rule_DelayRange \<and>
    (\<exists>out. writeResponse go_stdlib (handlerOf [rule_DelayRange]) []
             (NewRequest ''GET'' ''/delayed-range'' [] [] []) rule_DelayRange = Inr out \<and>
           \<not> aborted out \<and>
           writer_after out = [WriteHeader 200, Write ''delayed response''] \<and>
           writes_of (writer_after out) = [''delayed response'']))"
proof -
  note t = C7_body_written [where L = go_stdlib and w = "[]"]
  have b1: "RespBody (Response rule_ResponseHeaders) = StringBody ''ok''"
       "RespHeaders (Response rule_ResponseHeaders) = [(''X-Test'', ''yes'')]"
       "StatusCode (Response rule_ResponseHeaders) = 200"
    by (simp_all add: rule_ResponseHeaders_def newRule_def)
  have b2: "RespBody (Response rule_ExactMatch) = OtherBody (JObject [(''message'', JString ''ok'')])"
       "RespHeaders (Response rule_ExactMatch) = []"
       "StatusCode (Response rule_ExactMatch) = 200"
    by (simp_all add: rule_ExactMatch_def newRule_def)
  have b3: "RespBody (Response rule_WildcardAny) = NilBody"
       "RespHeaders (Response rule_WildcardAny) = []"
       "StatusCode (Response rule_WildcardAny) = 201"
    by (simp_all add: rule_WildcardAny_def newRule_def)
  have b4: "RespBody (Response rule_DelayFixed) = StringBody ''delayed response''"
       "RespHeaders (Response rule_DelayFixed) = []"
       "StatusCode (Response rule_DelayFixed) = 200"
       "ResponseDelay rule_DelayFixed = Some \<lparr>DelayMin = 100, DelayMax = 100\<rparr>"
    by (simp_all add: rule_DelayFixed_def newRule_def)
  have b5: "RespBody (Response rule_DelayRange) = StringBody ''delayed response''"
       "RespHeaders (Response rule_DelayRange) = []"
       "StatusCode (Response rule_DelayRange) = 200"
       "ResponseDelay rule_DelayRange = Some \<lparr>DelayMin = 50, DelayMax = 150\<rparr>"
    by (simp_all add: rule_DelayRange_def newRule_def)
  show ?thesis
    using t [OF headers_completes, where s = "''ok''" and v = JNull and data = "[]"]
      t [OF exact_completes, where s = "[]" and v = "JObject [(''message'', JString ''ok'')]"
        and data = json_message_ok]
      t [OF wildcard_completes, where s = "[]" and v = JNull and data = "[]"]
      t [OF delayed_completes, where s = "''delayed response''" and v = JNull and data = "[]"]
      t [OF range_completes, where s = "''delayed response''" and v = JNull and data = "[]"]
      headers_completes exact_completes wildcard_completes delayed_completes range_completes
      b1 b2 b3 b4 b5 Marshal_message_ok
    by (simp add: setHeaders_def)
qed

section \<open>Absent headers and parameters, and the pattern that matches everything\<close>

lemma first_value_empty: "first_value (Some [[]]) = []"
  by (simp add: first_value_def)










section \<open>Cancellation during the delay\<close>

text \<open>
  C9. For every matched rule with a configured delay, if the request's context is done
  before the delay has passed (the \<open>select\<close> fires on \<open>r.Context().Done()\<close>), the
  handler returns with the response writer as it received it: no header set, no status
  code, no body.
\<close>

theorem C9_cancelled_writes_nothing:
  assumes "fst (findMatchingRule L h r) = Some i"
    and "ResponseDelay (Requests (config h) ! i) = Some delay"
    and "calculateDelay h delay = Inr (d, h')"
    and "Context_Done r d"
  shows "\<exists>out. ServeHTTP L h w r = Inr out \<and> writer_after out = w \<and> aborted out \<and>
               waited out = Some d"
proof -
  obtain r' where f: "findMatchingRule L h r = (Some i, r')"
    using assms(1) by (cases "findMatchingRule L h r") simp
  have "Context_Done r' = Context_Done r"
    using findMatchingRule_Context_Done [of L h r] f by simp
  with assms(4) have "Context_Done r' d" by simp
  with f assms(2,3) show ?thesis
    by (simp add: ServeHTTP_def writeResponse_def)
qed


lemma delayed_found:
  "fst (findMatchingRule go_stdlib (handlerOf [rule_DelayFixed])
         (disconnected (NewRequest ''GET'' ''/delayed'' [] [] []))) = Some 0"
  by code_simp

lemma delayed_delay:
  "ResponseDelay (Requests (config (handlerOf [rule_DelayFixed])) ! 0) =
     Some \<lparr>DelayMin = 100, DelayMax = 100\<rparr>"
  by (simp add: handlerOf_def NewMockHandlerWithRand_def newConfig_def rule_DelayFixed_def
      newRule_def)

lemma delayed_duration:
  "calculateDelay (handlerOf [rule_DelayFixed]) \<lparr>DelayMin = 100, DelayMax = 100\<rparr> =
     Inr (100000000, handlerOf [rule_DelayFixed])"
  by (simp add: calculateDelay_def Millisecond_def)

lemma disconnected_done:
  "Context_Done (disconnected (NewRequest ''GET'' ''/delayed'' [] [] [])) 100000000"
  by (simp add: disconnected_def)

theorem C9_cancelled_writes_nothing_witness:
  "fst (findMatchingRule go_stdlib (handlerOf [rule_DelayFixed])
         (disconnected (NewRequest ''GET'' ''/delayed'' [] [] []))) = Some 0 \<and>
   ResponseDelay (Requests (config (handlerOf [rule_DelayFixed])) ! 0) =
     Some \<lparr>DelayMin = 100, DelayMax = 100\<rparr> \<and>
   calculateDelay (handlerOf [rule_DelayFixed]) \<lparr>DelayMin = 100, DelayMax = 100\<rparr> =
     Inr (100000000, handlerOf [rule_DelayFixed]) \<and>
   Context_Done (disconnected (NewRequest ''GET'' ''/delayed'' [] [] [])) 100000000 \<and>
   (\<exists>out. ServeHTTP go_stdlib (handlerOf [rule_DelayFixed]) []
            (disconnected (NewRequest ''GET'' ''/delayed'' [] [] [])) = Inr out \<and>
          writer_after out = [] \<and> aborted out \<and> waited out = Some 100000000)"
  using C9_cancelled_writes_nothing [OF delayed_found delayed_delay delayed_duration
      disconnected_done, of "[]"]
    delayed_found delayed_delay delayed_duration disconnected_done
  by simp


section \<open>The delay calculator outside its precondition\<close>

text \<open>
  C10 (as amended). For every delay pair with \<open>max - min < 9223372036854775807\<close>, so
  that \<open>max - min + 1\<close> does not overflow a 64-bit \<open>int\<close> (every pair with
  \<open>max \<le> min\<close> is one, and every pair of bounds between 0 and 10000 in either order),
  the calculator does not panic. Whenever \<open>max \<le> min\<close> it returns \<open>min\<close> times
  \<open>time.Millisecond\<close> and leaves the random source as it was; that product is exactly
  \<open>min\<close> milliseconds when \<open>min\<close> is at most 9223372036854 in absolute value.
  (The claim spoke of every delay pair.)
\<close>

theorem C10_delay_total:
  "(sint (DelayMax delay) - sint (DelayMin delay) < 9223372036854775807 \<longrightarrow>
      (\<exists>d h'. calculateDelay h delay = Inr (d, h'))) \<and>
   (sint (DelayMax delay) \<le> sint (DelayMin delay) \<longrightarrow>
      calculateDelay h delay = Inr (DelayMin delay * Millisecond, h)) \<and>
   (- 9223372036854 \<le> sint (DelayMin delay) \<and> sint (DelayMin delay) \<le> 9223372036854 \<longrightarrow>
      sint (DelayMin delay * Millisecond) = sint (DelayMin delay) * 1000000 \<and>
      Milliseconds (DelayMin delay * Millisecond) = sint (DelayMin delay))"
proof (intro conjI impI)
  assume span: "sint (DelayMax delay) - sint (DelayMin delay) < 9223372036854775807"
  show "\<exists>d h'. calculateDelay h delay = Inr (d, h')"
  proof (cases "sint (DelayMin delay) < sint (DelayMax delay)")
    case True
    from calculateDelay_range [OF True span, of h] show ?thesis by blast
  next
    case False
    then show ?thesis by (simp add: calculateDelay_fixed)
  qed
next
  assume "sint (DelayMax delay) \<le> sint (DelayMin delay)"
  then show "calculateDelay h delay = Inr (DelayMin delay * Millisecond, h)"
    by (rule calculateDelay_fixed)
next
  assume b: "- 9223372036854 \<le> sint (DelayMin delay) \<and> sint (DelayMin delay) \<le> 9223372036854"
  then show "sint (DelayMin delay * Millisecond) = sint (DelayMin delay) * 1000000"
    by (simp add: sint64_ms)
next
  assume b: "- 9223372036854 \<le> sint (DelayMin delay) \<and> sint (DelayMin delay) \<le> 9223372036854"
  then show "Milliseconds (DelayMin delay * Millisecond) = sint (DelayMin delay)"
    by (simp add: Milliseconds_ms)
qed

theorem C10_delay_total_witness:
  "sint (DelayMax delay_Reversed) \<le> sint (DelayMin delay_Reversed) \<and>
   sint (DelayMax delay_Reversed) - sint (DelayMin delay_Reversed) < 9223372036854775807 \<and>
   - 9223372036854 \<le> sint (DelayMin delay_Reversed) \<and>
   sint (DelayMin delay_Reversed) \<le> 9223372036854 \<and>
   calculateDelay (handlerOf []) delay_Reversed = Inr (150000000, handlerOf []) \<and>
   Milliseconds (DelayMin delay_Reversed * Millisecond) = 150"
  using C10_delay_total [where delay = delay_Reversed and h = "handlerOf []"]
  by (simp add: delay_Reversed_def Millisecond_def)

text \<open>
  The claim as stated fails for the pair \<open>{0, 9223372036854775807}\<close>: \<open>max - min + 1\<close>
  wraps around to a negative number and \<open>rand.Intn\<close> panics. And for
  \<open>{9223372036855, 0}\<close>, where \<open>max \<le> min\<close>, the duration returned is not
  \<open>min\<close> milliseconds.
\<close>

theorem C10_delay_panic_counterexample:
  "calculateDelay (handlerOf []) delay_Widest = Inl (Panic ''invalid argument to Intn'') \<and>
   sint (DelayMin delay_Widest) \<le> sint (DelayMax delay_Widest) \<and>
   0 \<le> sint (DelayMin delay_Widest) \<and>
   sint (DelayMax delay_TooLongReversed) \<le> sint (DelayMin delay_TooLongReversed) \<and>
   calculateDelay (handlerOf []) delay_TooLongReversed =
     Inr (DelayMin delay_TooLongReversed * Millisecond, handlerOf []) \<and>
   sint (DelayMin delay_TooLongReversed) = 9223372036855 \<and>
   Milliseconds (DelayMin delay_TooLongReversed * Millisecond) = - 9223372036854"
  by (simp add: delay_Widest_def delay_TooLongReversed_def calculateDelay_def Intn_def
      Millisecond_def Milliseconds_def)


section \<open>The tests of the repository, replayed\<close>

text \<open>
  The handler's tests, run on the model with the engine and the encoder of this theory:
  the status and the body each test expects.
\<close>

lemma test_ExactMatch:
  "map_option (\<lambda>w. (status_of w, body_of w))
     (written (ServeHTTP go_stdlib (handlerOf [rule_ExactMatch]) []
        (NewRequest ''GET'' ''/foo'' [(''Content-Type'', ''application/json; charset=utf-8'')] [] [])))
   = Some (Some 200, json_message_ok)"
  by code_simp

lemma test_WildcardAny:
  "map_option status_of
     (written (ServeHTTP go_stdlib (handlerOf [rule_WildcardAny]) []
        (NewRequest ''POST'' ''/bar'' [(''Content-Type'', ''text/plain'')] [] ''hello'')))
   = Some (Some 201)"
  by code_simp

lemma test_ResponseHeaders:
  "written (ServeHTTP go_stdlib (handlerOf [rule_ResponseHeaders]) []
        (NewRequest ''GET'' ''/headers'' [(''Content-Type'', ''text/plain'')] [] []))
   = Some [Header_Set ''X-Test'' ''yes'', WriteHeader 200, Write ''ok'']"
  by code_simp

lemma test_QueryParamRegexMatch:
  "map_option status_of
     (written (ServeHTTP go_stdlib (handlerOf [rule_QueryParamRegex]) []
        (NewRequest ''GET'' ''/search'' [] [(''page'', [''3'']), (''extra'', [''x''])] [])))
   = Some (Some 200) \<and>
   map_option status_of
     (written (ServeHTTP go_stdlib (handlerOf [rule_QueryParamRegex]) []
        (NewRequest ''GET'' ''/search'' [] [(''page'', [''abc''])] [])))
   = Some (Some 404)"
  by code_simp

lemma test_QueryParamInvalidRegexFallsBackToExact:
  "map_option status_of
     (written (ServeHTTP go_stdlib (handlerOf [rule_InvalidRegex]) []
        (NewRequest ''GET'' ''/test'' [] [(''pattern'', [''[invalid(regex''])] [])))
   = Some (Some 200)"
  by code_simp

lemma test_ResponseDelayFixed:
  "map_option (\<lambda>out. (waited out, status_of (writer_after out), body_of (writer_after out)))
     (returned (ServeHTTP go_stdlib (handlerOf [rule_DelayFixed]) []
        (NewRequest ''GET'' ''/delayed'' [] [] [])))
   = Some (Some 100000000, Some 200, ''delayed response'')"
  by code_simp


end
